theory Spec2Isabelle
  imports Main "HOL-Library.AList" "HOL-Library.Char_ord" "HOL-Library.List_Lexorder"
begin

section \<open>The TDR validator (tools/tdr\_validator.py)\<close>

text \<open>
  A shallow embedding of the class \<^verbatim>\<open>TDRValidator\<close>. Text is a HOL \<open>string\<close> whose
  characters are read as the code points 0 to 255 (Latin-1). The character classes of
  the regular expressions (\<^verbatim>\<open>\s\<close>, \<^verbatim>\<open>\d\<close>, \<^verbatim>\<open>\w\<close>, \<^verbatim>\<open>\b\<close>) and of \<^verbatim>\<open>str.strip\<close> are
  those of Python's Unicode strings on that range. The validator's two accumulators
  are a record that every method takes and returns; an exception that leaves a method
  is the left summand of its result.
\<close>

subsection \<open>Python text operations\<close>

definition startswith :: "string \<Rightarrow> string \<Rightarrow> bool" where
  "startswith s p = (take (length p) s = p)"

text \<open>\<open>find_sub sub s\<close> is the lowest index at which \<open>sub\<close> occurs in \<open>s\<close>.\<close>

fun find_sub :: "string \<Rightarrow> string \<Rightarrow> nat option" where
  "find_sub sub [] = (if sub = [] then Some 0 else None)"
| "find_sub sub (c # cs) =
     (if startswith (c # cs) sub then Some 0 else map_option Suc (find_sub sub cs))"

text \<open>\<^verbatim>\<open>s.find(sub, start)\<close> for \<open>start \<ge> 0\<close>: the lowest index from \<open>start\<close> on, or -1.\<close>

definition py_find :: "string \<Rightarrow> string \<Rightarrow> nat \<Rightarrow> int" where
  "py_find s sub start =
     (if length s < start then - 1
      else case find_sub sub (drop start s) of
             None \<Rightarrow> - 1
           | Some i \<Rightarrow> int (start + i))"

text \<open>The slice \<^verbatim>\<open>s[i:j]\<close> for \<open>0 \<le> i\<close>, \<open>0 \<le> j\<close>.\<close>

definition slice :: "string \<Rightarrow> nat \<Rightarrow> nat \<Rightarrow> string" where
  "slice s i j = take (j - i) (drop i s)"

text \<open>
  \<^verbatim>\<open>str.isspace\<close> of one character, which is also the class \<^verbatim>\<open>\s\<close> of a pattern on
  a Unicode string: tab to carriage return, the four separators 28 to 31, the blank,
  the next-line character 133 and the no-break space 160.
\<close>

definition is_space :: "char \<Rightarrow> bool" where
  "is_space c = (c \<in> set [CHR 0x09, CHR 0x0A, CHR 0x0B, CHR 0x0C, CHR 0x0D,
                           CHR 0x1C, CHR 0x1D, CHR 0x1E, CHR 0x1F, CHR 0x20,
                           CHR 0x85, CHR 0xA0])"

definition strip :: "string \<Rightarrow> string" where
  "strip s = rev (dropWhile is_space (rev (dropWhile is_space s)))"

definition ascii_lowercase :: string where
  "ascii_lowercase = ''abcdefghijklmnopqrstuvwxyz''"

definition ascii_uppercase :: string where
  "ascii_uppercase = ''ABCDEFGHIJKLMNOPQRSTUVWXYZ''"

definition digits :: string where
  "digits = ''0123456789''"

text \<open>
  The letters from 192 to 254 that have the other case in the range: lower is upper
  plus 32; 215 and 247 are the signs of multiplication and division.
\<close>

definition latin1_uppercase :: string where
  "latin1_uppercase =
     [CHR 0xC0, CHR 0xC1, CHR 0xC2, CHR 0xC3, CHR 0xC4, CHR 0xC5, CHR 0xC6,
      CHR 0xC7, CHR 0xC8, CHR 0xC9, CHR 0xCA, CHR 0xCB, CHR 0xCC, CHR 0xCD,
      CHR 0xCE, CHR 0xCF, CHR 0xD0, CHR 0xD1, CHR 0xD2, CHR 0xD3, CHR 0xD4,
      CHR 0xD5, CHR 0xD6, CHR 0xD8, CHR 0xD9, CHR 0xDA, CHR 0xDB, CHR 0xDC,
      CHR 0xDD, CHR 0xDE]"

definition latin1_lowercase :: string where
  "latin1_lowercase =
     [CHR 0xE0, CHR 0xE1, CHR 0xE2, CHR 0xE3, CHR 0xE4, CHR 0xE5, CHR 0xE6,
      CHR 0xE7, CHR 0xE8, CHR 0xE9, CHR 0xEA, CHR 0xEB, CHR 0xEC, CHR 0xED,
      CHR 0xEE, CHR 0xEF, CHR 0xF0, CHR 0xF1, CHR 0xF2, CHR 0xF3, CHR 0xF4,
      CHR 0xF5, CHR 0xF6, CHR 0xF8, CHR 0xF9, CHR 0xFA, CHR 0xFB, CHR 0xFC,
      CHR 0xFD, CHR 0xFE]"

text \<open>
  \<^verbatim>\<open>str.upper\<close> and \<^verbatim>\<open>str.lower\<close>. The sharp s (223) becomes \<^verbatim>\<open>SS\<close> in upper case.
  The upper case of the two letters 181 and 255 lies beyond 255; the model keeps the
  letter. The code only asks whether the result is a key of the registry or a valid
  status, all of which are ASCII, and a result that holds a character from 128 on is
  none, in Python and in the model alike.
\<close>

definition upper :: "string \<Rightarrow> string" where
  "upper s =
     concat (map (\<lambda>c. if c = CHR 0xDF then ''SS''
                      else [case map_of (zip (ascii_lowercase @ latin1_lowercase)
                                             (ascii_uppercase @ latin1_uppercase)) c of
                              Some u \<Rightarrow> u | None \<Rightarrow> c]) s)"

definition lower :: "string \<Rightarrow> string" where
  "lower s = map (\<lambda>c. case map_of (zip (ascii_uppercase @ latin1_uppercase)
                                        (ascii_lowercase @ latin1_lowercase)) c of
                         Some l \<Rightarrow> l | None \<Rightarrow> c) s"

text \<open>\<^verbatim>\<open>s.split('\n')\<close>: never empty, one more piece than there are line feeds.\<close>

fun split_nl :: "string \<Rightarrow> string list" where
  "split_nl [] = [[]]"
| "split_nl (c # cs) =
     (if c = CHR 0x0A then [] # split_nl cs
      else (case split_nl cs of
              l # ls \<Rightarrow> (c # l) # ls
            | [] \<Rightarrow> [[c]]))"

text \<open>\<^verbatim>\<open>'\n'.join(ls)\<close>.\<close>

fun join_nl :: "string list \<Rightarrow> string" where
  "join_nl [] = []"
| "join_nl [l] = l"
| "join_nl (l # ls) = l @ CHR 0x0A # join_nl ls"

text \<open>\<^verbatim>\<open>', '.join(ls)\<close>.\<close>

fun join_comma :: "string list \<Rightarrow> string" where
  "join_comma [] = []"
| "join_comma [l] = l"
| "join_comma (l # ls) = l @ '', '' @ join_comma ls"

subsection \<open>Decoded YAML values and the library calls\<close>

text \<open>
  What \<^verbatim>\<open>yaml.safe_load\<close> builds from plain YAML: null, booleans, integers, floats,
  strings, timestamps (a \<^verbatim>\<open>datetime.date\<close> or \<^verbatim>\<open>datetime.datetime\<close>, kept as its ISO
  text), sequences and mappings. A float is finite (mantissa and binary exponent),
  infinite (with its sign) or not a number. A mapping keeps its entries in insertion
  order; its keys are decoded values themselves.
\<close>

datatype pyfloat = Finite int int | Infinity bool | NaN

datatype yaml =
    YNone
  | YBool bool
  | YInt int
  | YFloat pyfloat
  | YStr string
  | YTimestamp string
  | YList "yaml list"
  | YDict "(yaml \<times> yaml) list"

datatype exn =
    YAMLError string
  | FileNotFoundError
  | UnicodeDecodeError
  | OSError
  | TypeError
  | AttributeError
  | KeyError
  | ValueError
  | OverflowError

text \<open>
  The calls into libraries that are no part of the repository: \<^verbatim>\<open>yaml.safe_load\<close>,
  the built-in \<^verbatim>\<open>str\<close> on a decoded value, and \<^verbatim>\<open>datetime.fromisoformat\<close>, of which
  only whether it returns (\<open>True\<close>) or raises \<^verbatim>\<open>ValueError\<close> (\<open>False\<close>) is used.
\<close>

record externals =
  safe_load :: "string \<Rightarrow> exn + yaml"
  py_str :: "yaml \<Rightarrow> string"
  fromisoformat :: "string \<Rightarrow> bool"

text \<open>Sequencing of calls that may raise.\<close>

definition and_then :: "exn + 'a \<Rightarrow> ('a \<Rightarrow> exn + 'b) \<Rightarrow> exn + 'b" where
  "and_then m f = (case m of Inl e \<Rightarrow> Inl e | Inr x \<Rightarrow> f x)"

text \<open>The truth value of a decoded value (\<^verbatim>\<open>if not frontmatter\<close>).\<close>

fun truthy :: "yaml \<Rightarrow> bool" where
  "truthy YNone = False"
| "truthy (YBool b) = b"
| "truthy (YInt i) = (i \<noteq> 0)"
| "truthy (YFloat f) = (case f of Finite m e \<Rightarrow> m \<noteq> 0 | Infinity s \<Rightarrow> True | NaN \<Rightarrow> True)"
| "truthy (YStr s) = (s \<noteq> [])"
| "truthy (YTimestamp t) = True"
| "truthy (YList xs) = (xs \<noteq> [])"
| "truthy (YDict d) = (d \<noteq> [])"

text \<open>
  \<^verbatim>\<open>k in v\<close> for a string \<open>k\<close>: key membership in a mapping, element membership in a
  sequence, substring test in a string, \<^verbatim>\<open>TypeError\<close> on anything else.
\<close>

fun py_in :: "string \<Rightarrow> yaml \<Rightarrow> exn + bool" where
  "py_in k (YDict d) = Inr (YStr k \<in> set (map fst d))"
| "py_in k (YList xs) = Inr (YStr k \<in> set xs)"
| "py_in k (YStr s) = Inr (find_sub k s \<noteq> None)"
| "py_in k YNone = Inl TypeError"
| "py_in k (YBool b) = Inl TypeError"
| "py_in k (YInt i) = Inl TypeError"
| "py_in k (YFloat f) = Inl TypeError"
| "py_in k (YTimestamp t) = Inl TypeError"

text \<open>\<^verbatim>\<open>v[k]\<close> for a string \<open>k\<close>: only a mapping can be indexed by a string.\<close>

fun getitem :: "yaml \<Rightarrow> string \<Rightarrow> exn + yaml" where
  "getitem (YDict d) k = (case map_of d (YStr k) of Some v \<Rightarrow> Inr v | None \<Rightarrow> Inl KeyError)"
| "getitem YNone k = Inl TypeError"
| "getitem (YBool b) k = Inl TypeError"
| "getitem (YInt i) k = Inl TypeError"
| "getitem (YFloat f) k = Inl TypeError"
| "getitem (YStr s) k = Inl TypeError"
| "getitem (YTimestamp t) k = Inl TypeError"
| "getitem (YList xs) k = Inl TypeError"

subsection \<open>The validator object\<close>

record validator =
  strict_mode :: bool
  errors :: "string list"
  warnings :: "string list"

definition add_error :: "validator \<Rightarrow> string \<Rightarrow> validator" where
  "add_error self msg = self\<lparr>errors := errors self @ [msg]\<rparr>"

definition add_warning :: "validator \<Rightarrow> string \<Rightarrow> validator" where
  "add_warning self msg = self\<lparr>warnings := warnings self @ [msg]\<rparr>"

subsection \<open>Frontmatter extraction\<close>

text \<open>
  \<^verbatim>\<open>_parse_frontmatter\<close>. The frontmatter returned is Python's \<^verbatim>\<open>None\<close> (\<open>YNone\<close>) or
  whatever the loader built. Only \<^verbatim>\<open>yaml.YAMLError\<close> is caught.
\<close>

definition parse_frontmatter ::
  "externals \<Rightarrow> string \<Rightarrow> validator \<Rightarrow> exn + ((yaml \<times> string) \<times> validator)" where
  "parse_frontmatter ext content self =
     (if \<not> startswith content ''---\<newline>'' then Inr ((YNone, content), self)
      else
        let end_marker = py_find content ''\<newline>---\<newline>'' 4 in
        if end_marker = - 1 then Inr ((YNone, content), self)
        else
          let yaml_content = slice content 4 (nat end_marker);
              markdown_content = drop (nat (end_marker + 5)) content
          in (case safe_load ext yaml_content of
                Inr frontmatter \<Rightarrow> Inr ((frontmatter, markdown_content), self)
              | Inl (YAMLError e) \<Rightarrow>
                  Inr ((YNone, content), add_error self (''Invalid YAML frontmatter: '' @ e))
              | Inl x \<Rightarrow> Inl x))"

subsection \<open>The schema registry\<close>

record tdr_config =
  type_name :: string
  required_sections :: "string list"
  optional_sections :: "string list"

definition TDR_TYPES :: "(string \<times> tdr_config) list" where
  "TDR_TYPES =
     [(''MDD'', \<lparr>type_name = ''Major Design Decision'',
        required_sections = [''Status'', ''Context'', ''Decision'', ''Rationale'',
          ''Consequences'', ''Implementation'', ''Alternatives Considered''],
        optional_sections = [''Assumptions'', ''Constraints'', ''Risks'', ''Timeline'',
          ''Success Metrics'', ''Review Schedule'']\<rparr>),
      (''ADR'', \<lparr>type_name = ''Architectural Decision Record'',
        required_sections = [''Status'', ''Context'', ''Decision'', ''Consequences''],
        optional_sections = [''Rationale'', ''Alternatives Considered'', ''Implementation'',
          ''Assumptions'', ''Constraints'', ''Related Decisions'']\<rparr>),
      (''EDR'', \<lparr>type_name = ''Engineering Decision Record'',
        required_sections = [''Status'', ''Context'', ''Decision'', ''Implementation''],
        optional_sections = [''Rationale'', ''Consequences'', ''Alternatives Considered'',
          ''Technical Details'', ''Testing Approach'', ''Performance Impact'']\<rparr>),
      (''IDR'', \<lparr>type_name = ''Implementation Decision Record'',
        required_sections = [''Status'', ''Context'', ''Decision'', ''Implementation''],
        optional_sections = [''Rationale'', ''Code Examples'', ''Testing Notes'',
          ''Performance Notes'', ''Dependencies'', ''Rollback Plan'']\<rparr>),
      (''TDM'', \<lparr>type_name = ''Technical Decision Memo'',
        required_sections = [''Context'', ''Decision'', ''Rationale''],
        optional_sections = [''Implementation'', ''Consequences'', ''Next Steps'',
          ''Follow-up Required'', ''Related Work'']\<rparr>)]"

definition VALID_STATUSES :: "string list" where
  "VALID_STATUSES = [''proposed'', ''accepted'', ''rejected'', ''superseded'',
                     ''deprecated'', ''under-review'', ''implemented'']"

subsection \<open>Field validation\<close>

text \<open>
  The pattern \<^verbatim>\<open>if k in frontmatter: ... frontmatter[k] ...\<close>: the membership test, then
  the subscript when the test succeeds.
\<close>

definition lookup :: "string \<Rightarrow> yaml \<Rightarrow> exn + yaml option" where
  "lookup k v =
     and_then (py_in k v) (\<lambda>present.
       if present then and_then (getitem v k) (\<lambda>x. Inr (Some x)) else Inr None)"

text \<open>The loop over \<^verbatim>\<open>required_fields\<close>.\<close>

fun check_required_fields :: "string list \<Rightarrow> yaml \<Rightarrow> validator \<Rightarrow> exn + validator" where
  "check_required_fields [] frontmatter self = Inr self"
| "check_required_fields (field # others) frontmatter self =
     and_then (py_in field frontmatter) (\<lambda>present.
       check_required_fields others frontmatter
         (if present then self
          else add_error self (''Missing required frontmatter field: '' @ field)))"

text \<open>
  \<^verbatim>\<open>frontmatter['type'].upper()\<close>: only a string has the method \<^verbatim>\<open>upper\<close>; any
  other value raises \<^verbatim>\<open>AttributeError\<close>. The same holds for \<^verbatim>\<open>status\<close> and \<^verbatim>\<open>lower\<close>.
\<close>

definition check_type :: "yaml \<Rightarrow> validator \<Rightarrow> exn + validator" where
  "check_type frontmatter self =
     and_then (lookup ''type'' frontmatter) (\<lambda>t.
       case t of
         None \<Rightarrow> Inr self
       | Some (YStr s) \<Rightarrow>
           Inr (if upper s \<notin> set (map fst TDR_TYPES)
                then add_error self (''Invalid TDR type: '' @ s @ ''. Valid types: '' @
                       join_comma (map fst TDR_TYPES))
                else self)
       | Some other \<Rightarrow> Inl AttributeError)"

definition check_status :: "yaml \<Rightarrow> validator \<Rightarrow> exn + validator" where
  "check_status frontmatter self =
     and_then (lookup ''status'' frontmatter) (\<lambda>t.
       case t of
         None \<Rightarrow> Inr self
       | Some (YStr s) \<Rightarrow>
           Inr (if lower s \<notin> set VALID_STATUSES
                then add_error self (''Invalid status: '' @ s @ ''. Valid statuses: '' @
                       join_comma VALID_STATUSES)
                else self)
       | Some other \<Rightarrow> Inl AttributeError)"

definition check_date :: "externals \<Rightarrow> yaml \<Rightarrow> validator \<Rightarrow> exn + validator" where
  "check_date ext frontmatter self =
     and_then (lookup ''date'' frontmatter) (\<lambda>t.
       case t of
         None \<Rightarrow> Inr self
       | Some v \<Rightarrow>
           Inr (if fromisoformat ext (py_str ext v) then self
                else add_error self (''Invalid date format: '' @ py_str ext v @
                       ''. Use ISO format: YYYY-MM-DD or YYYY-MM-DDTHH:MM:SS'')))"

definition check_decision_owner :: "yaml \<Rightarrow> validator \<Rightarrow> exn + validator" where
  "check_decision_owner frontmatter self =
     and_then (lookup ''decision_owner'' frontmatter) (\<lambda>t.
       case t of
         None \<Rightarrow> Inr self
       | Some (YStr s) \<Rightarrow>
           Inr (if strip s = [] then add_error self ''decision_owner cannot be empty''
                else self)
       | Some other \<Rightarrow> Inr (add_error self ''decision_owner must be a string''))"

text \<open>\<^verbatim>\<open>isinstance(v, (int, str))\<close>; a Python \<^verbatim>\<open>bool\<close> is an \<^verbatim>\<open>int\<close>.\<close>

fun isinstance_int_str :: "yaml \<Rightarrow> bool" where
  "isinstance_int_str (YInt i) = True"
| "isinstance_int_str (YBool b) = True"
| "isinstance_int_str (YStr s) = True"
| "isinstance_int_str v = False"

text \<open>
  Whether \<^verbatim>\<open>int(v)\<close> returns, and what it raises otherwise (its value is discarded). The
  call is guarded by \<open>isinstance_int_str\<close>, so integers, booleans and strings never reach
  it; for a string the model accepts an optional sign and decimal digits.
\<close>

text \<open>The class \<^verbatim>\<open>\d\<close>: the decimal digits, of which there is none from 128 to 255.\<close>

definition is_digit :: "char \<Rightarrow> bool" where
  "is_digit c = (c \<in> set digits)"

definition int_literal :: "string \<Rightarrow> bool" where
  "int_literal s =
     (let t = strip s;
          u = (if take 1 t = ''+'' \<or> take 1 t = ''-'' then drop 1 t else t)
      in u \<noteq> [] \<and> list_all is_digit u)"

fun py_int :: "yaml \<Rightarrow> exn + unit" where
  "py_int (YInt i) = Inr ()"
| "py_int (YBool b) = Inr ()"
| "py_int (YStr s) = (if int_literal s then Inr () else Inl ValueError)"
| "py_int (YFloat (Finite m e)) = Inr ()"
| "py_int (YFloat (Infinity sign)) = Inl OverflowError"
| "py_int (YFloat NaN) = Inl ValueError"
| "py_int YNone = Inl TypeError"
| "py_int (YTimestamp t) = Inl TypeError"
| "py_int (YList xs) = Inl TypeError"
| "py_int (YDict d) = Inl TypeError"

text \<open>
  One round of the loop over \<^verbatim>\<open>['tdr_id', 'supersedes']\<close>. For \<^verbatim>\<open>tdr_id\<close> the call is
  \<^verbatim>\<open>str(v)\<close>, which always returns. Only \<^verbatim>\<open>ValueError\<close> and \<^verbatim>\<open>TypeError\<close> are caught.
\<close>

definition check_optional_field :: "string \<Rightarrow> yaml \<Rightarrow> validator \<Rightarrow> exn + validator" where
  "check_optional_field field frontmatter self =
     and_then (lookup field frontmatter) (\<lambda>t.
       case t of
         None \<Rightarrow> Inr self
       | Some v \<Rightarrow>
           if isinstance_int_str v then Inr self
           else if field \<noteq> ''tdr_id'' then
             (case py_int v of
                Inr u \<Rightarrow> Inr self
              | Inl ValueError \<Rightarrow>
                  Inr (add_warning self (''Field '' @ [CHR 0x27] @ field @ [CHR 0x27] @
                         '' should be numeric or string''))
              | Inl TypeError \<Rightarrow>
                  Inr (add_warning self (''Field '' @ [CHR 0x27] @ field @ [CHR 0x27] @
                         '' should be numeric or string''))
              | Inl e \<Rightarrow> Inl e)
           else Inr self)"

definition check_reviewers :: "yaml \<Rightarrow> validator \<Rightarrow> exn + validator" where
  "check_reviewers frontmatter self =
     and_then (lookup ''reviewers'' frontmatter) (\<lambda>t.
       case t of
         None \<Rightarrow> Inr self
       | Some (YList xs) \<Rightarrow> Inr self
       | Some other \<Rightarrow> Inr (add_warning self ''reviewers should be a list''))"

text \<open>\<^verbatim>\<open>_validate_frontmatter\<close>: the checks in the order of the source.\<close>

definition validate_frontmatter :: "externals \<Rightarrow> yaml \<Rightarrow> validator \<Rightarrow> exn + validator" where
  "validate_frontmatter ext frontmatter self =
     and_then (check_required_fields
        [''type'', ''title'', ''status'', ''date'', ''decision_owner''] frontmatter self) (\<lambda>self.
     and_then (check_type frontmatter self) (\<lambda>self.
     and_then (check_status frontmatter self) (\<lambda>self.
     and_then (check_date ext frontmatter self) (\<lambda>self.
     and_then (check_decision_owner frontmatter self) (\<lambda>self.
     and_then (check_optional_field ''tdr_id'' frontmatter self) (\<lambda>self.
     and_then (check_optional_field ''supersedes'' frontmatter self) (\<lambda>self.
     check_reviewers frontmatter self)))))))"

subsection \<open>Section segmentation\<close>

text \<open>
  \<^verbatim>\<open>re.match(r'^(#{2,3})\s+(.+)$', line)\<close> on one piece of \<^verbatim>\<open>content.split('\n')\<close>, which
  holds no line feed, so \<^verbatim>\<open>.+\<close> runs to the end of the line. \<open>after_hashes\<close> is the rest
  of the pattern once the hashes are consumed: the greedy \<^verbatim>\<open>\s+\<close> takes the whole run of
  white space; when nothing is left for \<^verbatim>\<open>.+\<close> it gives one character back, if it has
  two. The result is group 2.
\<close>

definition after_hashes :: "string \<Rightarrow> string option" where
  "after_hashes r =
     (let ws = takeWhile is_space r; rest = dropWhile is_space r in
      if ws = [] then None
      else if rest \<noteq> [] then Some rest
      else if 2 \<le> length ws then Some [last ws]
      else None)"

definition try_hashes :: "nat \<Rightarrow> string \<Rightarrow> string option" where
  "try_hashes k line =
     (if take k line = replicate k (CHR ''#'') then after_hashes (drop k line) else None)"

text \<open>The greedy \<^verbatim>\<open>#{2,3}\<close> tries three hashes, then two.\<close>

definition header_match :: "string \<Rightarrow> string option" where
  "header_match line =
     (case try_hashes 3 line of Some g \<Rightarrow> Some g | None \<Rightarrow> try_hashes 2 line)"

type_synonym section_map = "(string \<times> string) list"

text \<open>
  The dictionary \<^verbatim>\<open>sections\<close> keeps insertion order, and an assignment to a key it
  already holds keeps the key's place: \<open>AList.update\<close>. The guard \<^verbatim>\<open>if current_section:\<close>
  fails for \<^verbatim>\<open>None\<close> and for the empty string.
\<close>

definition save_section :: "section_map \<Rightarrow> string option \<Rightarrow> string list \<Rightarrow> section_map" where
  "save_section secs current_section current_content =
     (case current_section of
        None \<Rightarrow> secs
      | Some name \<Rightarrow>
          if name \<noteq> [] then AList.update name (strip (join_nl current_content)) secs
          else secs)"

definition collecting :: "string option \<Rightarrow> bool" where
  "collecting current_section =
     (case current_section of None \<Rightarrow> False | Some name \<Rightarrow> name \<noteq> [])"

text \<open>The loop over the lines, on the three variables it updates.\<close>

fun parse_lines ::
  "string list \<Rightarrow> section_map \<Rightarrow> string option \<Rightarrow> string list \<Rightarrow>
   section_map \<times> string option \<times> string list" where
  "parse_lines [] secs current_section current_content =
     (secs, current_section, current_content)"
| "parse_lines (line # lines) secs current_section current_content =
     (case header_match line of
        Some g \<Rightarrow>
          parse_lines lines (save_section secs current_section current_content)
            (Some (strip g)) []
      | None \<Rightarrow>
          parse_lines lines secs current_section
            (if collecting current_section then current_content @ [line]
             else current_content))"

text \<open>\<^verbatim>\<open>_parse_sections\<close>; it reads and writes no attribute of the validator.\<close>

definition parse_sections :: "string \<Rightarrow> validator \<Rightarrow> section_map \<times> validator" where
  "parse_sections content self =
     (case parse_lines (split_nl content) [] None [] of
        (secs, current_section, current_content) \<Rightarrow>
          (save_section secs current_section current_content, self))"

subsection \<open>Section validation\<close>

fun check_required_sections :: "string list \<Rightarrow> section_map \<Rightarrow> validator \<Rightarrow> validator" where
  "check_required_sections [] secs self = self"
| "check_required_sections (required_section # others) secs self =
     check_required_sections others secs
       (case map_of secs required_section of
          None \<Rightarrow> add_error self (''Missing required section: '' @ required_section)
        | Some body \<Rightarrow>
            if strip body = []
            then add_error self (''Required section is empty: '' @ required_section)
            else self)"

fun check_unknown_sections ::
  "string \<Rightarrow> string list \<Rightarrow> string list \<Rightarrow> validator \<Rightarrow> validator" where
  "check_unknown_sections tdr_type known_sections [] self = self"
| "check_unknown_sections tdr_type known_sections (section_name # others) self =
     check_unknown_sections tdr_type known_sections others
       (if section_name \<notin> set known_sections
        then add_warning self (''Unknown section for '' @ tdr_type @ '': '' @ section_name)
        else self)"

text \<open>\<^verbatim>\<open>_validate_sections\<close>; \<^verbatim>\<open>tdr_type.upper()\<close> needs a string.\<close>

definition validate_sections :: "yaml \<Rightarrow> section_map \<Rightarrow> validator \<Rightarrow> exn + validator" where
  "validate_sections tdr_type secs self =
     (case tdr_type of
        YStr s \<Rightarrow>
          (case map_of TDR_TYPES (upper s) of
             None \<Rightarrow> Inr self
           | Some config \<Rightarrow>
               let self1 = check_required_sections (required_sections config) secs self in
               Inr (if strict_mode self1
                    then check_unknown_sections (upper s)
                           (required_sections config @ optional_sections config)
                           (map fst secs) self1
                    else self1))
      | other \<Rightarrow> Inl AttributeError)"

subsection \<open>Cross-reference scanning\<close>

text \<open>The class \<^verbatim>\<open>[A-Z]\<close>.\<close>

definition is_upper :: "char \<Rightarrow> bool" where
  "is_upper c = (c \<in> set ascii_uppercase)"

text \<open>
  The class \<^verbatim>\<open>\w\<close> of a pattern on a Unicode string: the underscore and every
  character that \<^verbatim>\<open>str.isalnum\<close> accepts. From 128 on these are the letters (the
  ordinal indicators 170 and 186, the micro sign 181, and 192 to 255 but for the two
  signs 215 and 247) and the numerics (the superscripts 178, 179, 185 and the
  fractions 188 to 190).
\<close>

definition latin1_alnum :: string where
  "latin1_alnum =
     [CHR 0xAA, CHR 0xB2, CHR 0xB3, CHR 0xB5, CHR 0xB9, CHR 0xBA, CHR 0xBC, CHR 0xBD,
      CHR 0xBE] @ latin1_uppercase @ [CHR 0xDF] @ latin1_lowercase @ [CHR 0xFF]"

definition is_word :: "char \<Rightarrow> bool" where
  "is_word c =
     (c \<in> set (ascii_lowercase @ ascii_uppercase @ digits @ ''_'' @ latin1_alnum))"

text \<open>
  \<^verbatim>\<open>\b\<close> between two neighbouring positions: exactly one side is a word character; the
  start and the end of the text count as no word character.
\<close>

definition word_boundary :: "char option \<Rightarrow> char option \<Rightarrow> bool" where
  "word_boundary before after =
     ((case before of None \<Rightarrow> False | Some c \<Rightarrow> is_word c) \<noteq>
      (case after of None \<Rightarrow> False | Some c \<Rightarrow> is_word c))"

definition first_char :: "string \<Rightarrow> char option" where
  "first_char s = (case s of [] \<Rightarrow> None | c # cs \<Rightarrow> Some c)"

text \<open>
  One attempt of \<^verbatim>\<open>\b([A-Z]{3})-(\d+)\b\<close> at a position, given the character before it:
  the two groups and the text after the match. The greedy \<^verbatim>\<open>\d+\<close> takes the whole run of
  digits; giving digits back cannot help, as no \<^verbatim>\<open>\b\<close> lies between two digits.
\<close>

definition match_ref :: "char option \<Rightarrow> string \<Rightarrow> (string \<times> string \<times> string) option" where
  "match_ref before s =
     (let ref_type = take 3 s;
          ref_id = takeWhile is_digit (drop 4 s);
          rest = dropWhile is_digit (drop 4 s)
      in if word_boundary before (first_char s) \<and>
            length ref_type = 3 \<and> list_all is_upper ref_type \<and>
            take 1 (drop 3 s) = ''-'' \<and>
            ref_id \<noteq> [] \<and>
            word_boundary (Some (last ref_id)) (first_char rest)
         then Some (ref_type, ref_id, rest)
         else None)"

text \<open>
  \<^verbatim>\<open>re.findall\<close>: the matches from left to right, none overlapping another; the scan
  goes on after a match, or one character further where there is none.
\<close>

function findall_refs :: "char option \<Rightarrow> string \<Rightarrow> (string \<times> string) list" where
  "findall_refs before [] = []"
| "findall_refs before (c # cs) =
     (case match_ref before (c # cs) of
        Some (ref_type, ref_id, rest) \<Rightarrow>
          (ref_type, ref_id) # findall_refs (Some (last ref_id)) rest
      | None \<Rightarrow> findall_refs (Some c) cs)"
  by pat_completeness auto
termination
proof (relation "measure (\<lambda>(before, s). length s)")
  show "wf (measure (\<lambda>(before, s). length s))" by simp
next
  fix before c cs
  show "((Some c, cs), (before, c # cs)) \<in> measure (\<lambda>(before, s). length s)" by simp
next
  fix before :: "char option" and c cs x2 ref_type y ref_id rest
  assume "match_ref before (c # cs) = Some x2" "(ref_type, y) = x2" "(ref_id, rest) = y"
  then have "rest = dropWhile is_digit (drop 4 (c # cs))"
    by (auto simp: match_ref_def Let_def split: if_splits)
  moreover have "length (dropWhile is_digit (drop 4 (c # cs))) \<le> length (drop 4 (c # cs))"
    by (rule length_dropWhile_le)
  ultimately have "length rest < length (c # cs)" by simp
  then show "((Some (last ref_id), rest), (before, c # cs)) \<in> measure (\<lambda>(before, s). length s)"
    by simp
qed

fun check_references :: "(string \<times> string) list \<Rightarrow> validator \<Rightarrow> validator" where
  "check_references [] self = self"
| "check_references ((ref_type, ref_id) # others) self =
     check_references others
       (if ref_type \<notin> set (map fst TDR_TYPES)
        then add_warning self (''Reference to unknown TDR type: '' @ ref_type @ ''-'' @ ref_id)
        else self)"

text \<open>\<^verbatim>\<open>_validate_cross_references\<close>.\<close>

definition validate_cross_references :: "string \<Rightarrow> validator \<Rightarrow> validator" where
  "validate_cross_references content self =
     check_references (findall_refs None content) self"

subsection \<open>AI-context validation\<close>

definition check_summary :: "(yaml \<times> yaml) list \<Rightarrow> validator \<Rightarrow> validator" where
  "check_summary ai_context self =
     (case map_of ai_context (YStr ''summary'') of
        None \<Rightarrow> self
      | Some (YStr s) \<Rightarrow>
          if length s < 20
          then add_warning self ''AI context summary should be a descriptive string (20+ chars)''
          else self
      | Some other \<Rightarrow>
          add_warning self ''AI context summary should be a descriptive string (20+ chars)'')"

definition check_keywords :: "(yaml \<times> yaml) list \<Rightarrow> validator \<Rightarrow> validator" where
  "check_keywords ai_context self =
     (case map_of ai_context (YStr ''keywords'') of
        None \<Rightarrow> self
      | Some (YList xs) \<Rightarrow> self
      | Some other \<Rightarrow> add_warning self ''AI context keywords should be a list'')"

definition check_complexity_level :: "(yaml \<times> yaml) list \<Rightarrow> validator \<Rightarrow> validator" where
  "check_complexity_level ai_context self =
     (case map_of ai_context (YStr ''complexity-level'') of
        None \<Rightarrow> self
      | Some v \<Rightarrow>
          if v \<notin> set [YStr ''low'', YStr ''medium'', YStr ''high'', YStr ''critical'']
          then add_warning self (''AI context complexity-level should be one of: '' @
                 ''['' @ [CHR 0x27] @ ''low'' @ [CHR 0x27] @ '', '' @
                 [CHR 0x27] @ ''medium'' @ [CHR 0x27] @ '', '' @
                 [CHR 0x27] @ ''high'' @ [CHR 0x27] @ '', '' @
                 [CHR 0x27] @ ''critical'' @ [CHR 0x27] @ '']'')
          else self)"

text \<open>
  \<^verbatim>\<open>_validate_ai_context\<close>. A value of \<^verbatim>\<open>ai-context\<close> that is no mapping goes to the
  error list, and the method returns.
\<close>

definition validate_ai_context :: "yaml \<Rightarrow> validator \<Rightarrow> exn + validator" where
  "validate_ai_context frontmatter self =
     and_then (lookup ''ai-context'' frontmatter) (\<lambda>t.
       case t of
         None \<Rightarrow> Inr self
       | Some (YDict ai_context) \<Rightarrow>
           Inr (check_complexity_level ai_context
                  (check_keywords ai_context (check_summary ai_context self)))
       | Some other \<Rightarrow> Inr (add_error self ''ai-context must be a dictionary''))"

subsection \<open>Results\<close>

text \<open>
  A result dictionary. The metadata of a file-level failure is the empty dictionary
  (\<open>None\<close>).
\<close>

record metadata =
  m_frontmatter :: yaml
  m_section_count :: nat
  m_sections :: "string list"
  m_has_ai_context :: bool

record result =
  r_file :: string
  r_valid :: bool
  r_errors :: "string list"
  r_warnings :: "string list"
  r_metadata :: "metadata option"

text \<open>
  \<^verbatim>\<open>_create_result\<close>. \<^verbatim>\<open>'ai-context' in frontmatter if frontmatter else False\<close> runs the
  membership test only on a frontmatter that counts as true.
\<close>

definition create_result :: "validator \<Rightarrow> string \<Rightarrow> yaml \<Rightarrow> section_map \<Rightarrow> exn + result" where
  "create_result self file_path frontmatter secs =
     and_then (if truthy frontmatter then py_in ''ai-context'' frontmatter else Inr False)
       (\<lambda>has. Inr \<lparr>r_file = file_path,
                    r_valid = (length (errors self) = 0),
                    r_errors = errors self,
                    r_warnings = warnings self,
                    r_metadata = Some \<lparr>m_frontmatter = frontmatter,
                                        m_section_count = length secs,
                                        m_sections = map fst secs,
                                        m_has_ai_context = has\<rparr>\<rparr>)"

definition create_error_result :: "string \<Rightarrow> result" where
  "create_error_result error_message =
     \<lparr>r_file = ''unknown'', r_valid = False, r_errors = [error_message],
      r_warnings = [], r_metadata = None\<rparr>"

subsection \<open>The orchestrator\<close>

text \<open>
  \<^verbatim>\<open>validate_file\<close>. The argument \<open>read\<close> is what opening and reading the file does: the
  text, or the exception raised. Only \<^verbatim>\<open>FileNotFoundError\<close> and \<^verbatim>\<open>UnicodeDecodeError\<close> are
  caught. Both accumulators are emptied on entry, so the result depends on the
  validator only through \<open>strict_mode\<close>.
\<close>

definition validate_file ::
  "externals \<Rightarrow> validator \<Rightarrow> string \<Rightarrow> exn + string \<Rightarrow> exn + result" where
  "validate_file ext self file_path read =
     (let self0 = self\<lparr>errors := [], warnings := []\<rparr> in
      case read of
        Inl FileNotFoundError \<Rightarrow> Inr (create_error_result (''File not found: '' @ file_path))
      | Inl UnicodeDecodeError \<Rightarrow>
          Inr (create_error_result (''Invalid UTF-8 encoding: '' @ file_path))
      | Inl e \<Rightarrow> Inl e
      | Inr content \<Rightarrow>
          and_then (parse_frontmatter ext content self0) (\<lambda>((frontmatter, markdown_content), self1).
            if \<not> truthy frontmatter then
              create_result (add_error self1 ''Missing or invalid YAML frontmatter'')
                file_path frontmatter []
            else
              and_then (validate_frontmatter ext frontmatter self1) (\<lambda>self2.
                case parse_sections markdown_content self2 of (secs, self3) \<Rightarrow>
                  and_then (lookup ''type'' frontmatter) (\<lambda>t.
                  and_then (case t of
                              None \<Rightarrow> Inr self3
                            | Some tdr_type \<Rightarrow> validate_sections tdr_type secs self3) (\<lambda>self4.
                  and_then (validate_ai_context frontmatter
                              (validate_cross_references markdown_content self4)) (\<lambda>self5.
                  create_result self5 file_path frontmatter secs))))))"

text \<open>The loop of \<^verbatim>\<open>validate_directory\<close>: an exception of one file ends it.\<close>

fun validate_each ::
  "externals \<Rightarrow> validator \<Rightarrow> (string \<times> (exn + string)) list \<Rightarrow> exn + result list" where
  "validate_each ext self [] = Inr []"
| "validate_each ext self ((file_path, read) # others) =
     and_then (validate_file ext self file_path read) (\<lambda>r.
     and_then (validate_each ext self others) (\<lambda>rs. Inr (r # rs)))"

text \<open>
  \<^verbatim>\<open>validate_directory\<close>. \<open>is_dir\<close> is the answer of \<^verbatim>\<open>dir_path.is_dir()\<close>, and
  \<open>tdr_files\<close> the paths that \<^verbatim>\<open>dir_path.glob("*.md")\<close> yields, each with what reading it
  does. Paths of one directory are ordered as their texts are.
\<close>

definition validate_directory ::
  "externals \<Rightarrow> validator \<Rightarrow> string \<Rightarrow> bool \<Rightarrow> (string \<times> (exn + string)) list \<Rightarrow>
   exn + result list" where
  "validate_directory ext self dir_path is_dir tdr_files =
     (if \<not> is_dir then Inr [create_error_result (''Directory not found: '' @ dir_path)]
      else if tdr_files = [] then
        Inr [create_error_result (''No .md files found in: '' @ dir_path)]
      else validate_each ext self (sort_key fst tdr_files))"

subsection \<open>Sample documents\<close>

text \<open>
  A loader, a rendering and a date parser that agree with the libraries on the sample
  texts below, which is all they are used for. The loader's message for the unclosed
  sequence is the first line of the library's.
\<close>

definition sample_header :: string where
  "sample_header =
     ''type: tdm\<newline>title: T\<newline>status: Accepted\<newline>date: 2024-01-15\<newline>decision_owner: bob''"

definition sample_frontmatter :: yaml where
  "sample_frontmatter =
     YDict [(YStr ''type'', YStr ''tdm''), (YStr ''title'', YStr ''T''),
            (YStr ''status'', YStr ''Accepted''), (YStr ''date'', YTimestamp ''2024-01-15''),
            (YStr ''decision_owner'', YStr ''bob'')]"

definition sample_body :: string where
  "sample_body = ''## Context\<newline>c\<newline>## Decision\<newline>d\<newline>## Rationale\<newline>r''"

definition sample_ext :: externals where
  "sample_ext =
     \<lparr>safe_load = (\<lambda>s.
        if s = sample_header then Inr sample_frontmatter
        else if s = ''type: TDM'' then Inr (YDict [(YStr ''type'', YStr ''TDM'')])
        else if s = ''type: 123'' then Inr (YDict [(YStr ''type'', YInt 123)])
        else if s = ''ai-context: x'' then Inr (YDict [(YStr ''ai-context'', YStr ''x'')])
        else if s = sample_header @ ''\<newline>ai-context: x''
          then (case sample_frontmatter of
                  YDict d \<Rightarrow> Inr (YDict (d @ [(YStr ''ai-context'', YStr ''x'')]))
                | other \<Rightarrow> Inr other)
        else if s = ''['' then Inl (YAMLError ''while parsing a flow node'')
        else Inr YNone),
      py_str = (\<lambda>v. case v of YStr s \<Rightarrow> s | YTimestamp t \<Rightarrow> t | other \<Rightarrow> ''None''),
      fromisoformat = (\<lambda>s. s = ''2024-01-15'')\<rparr>"

definition sample_validator :: validator where
  "sample_validator = \<lparr>strict_mode = False, errors = [], warnings = []\<rparr>"


section \<open>Properties\<close>

subsection \<open>Substring search and lines\<close>

lemma find_sub_Some:
  "find_sub sub s = Some i \<Longrightarrow> s = take i s @ sub @ drop (i + length sub) s"
proof (induction s arbitrary: i)
  case Nil
  then show ?case by (simp split: if_splits)
next
  case (Cons c cs)
  show ?case
  proof (cases "startswith (c # cs) sub")
    case True
    with Cons.prems have "i = 0" by simp
    moreover from True have "take (length sub) (c # cs) = sub" by (simp add: startswith_def)
    then have "c # cs = sub @ drop (length sub) (c # cs)"
      by (metis append_take_drop_id)
    ultimately show ?thesis by simp
  next
    case False
    with Cons.prems obtain j where j: "find_sub sub cs = Some j" "i = Suc j" by auto
    from Cons.IH [OF j(1)] have "cs = take j cs @ sub @ drop (j + length sub) cs" .
    with j(2) show ?thesis by simp
  qed
qed

lemma find_sub_None:
  "find_sub sub s = None \<Longrightarrow> s \<noteq> a @ sub @ b"
proof (induction s arbitrary: a)
  case Nil
  then show ?case by (auto split: if_splits)
next
  case (Cons c cs)
  from Cons.prems have ns: "\<not> startswith (c # cs) sub" and rec: "find_sub sub cs = None"
    by (auto split: if_splits)
  show ?case
  proof (cases a)
    case Nil
    with ns show ?thesis by (auto simp: startswith_def)
  next
    case (Cons x xs)
    with Cons.IH [OF rec, of xs] show ?thesis by auto
  qed
qed

lemma split_nl_not_Nil [simp]: "split_nl s \<noteq> []"
  by (induction s) (auto split: list.splits)

lemma split_nl_line: "CHR 0x0A \<notin> set l \<Longrightarrow> split_nl l = [l]"
  by (induction l) auto

lemma split_nl_append:
  "split_nl (a @ CHR 0x0A # b) = split_nl a @ split_nl b"
proof (induction a)
  case Nil
  then show ?case by simp
next
  case (Cons c cs)
  obtain l ls where "split_nl cs = l # ls" by (cases "split_nl cs") auto
  with Cons show ?case by (auto split: list.splits)
qed

lemma occurrence_is_line:
  assumes "s = a @ CHR 0x0A # l @ CHR 0x0A # b" "CHR 0x0A \<notin> set l"
  shows "l \<in> set (butlast (tl (split_nl s)))"
proof -
  have "split_nl s = split_nl a @ [l] @ split_nl b"
    using assms by (simp add: split_nl_append split_nl_line del: split_nl.simps)
  moreover obtain x xs where "split_nl a = x # xs" by (cases "split_nl a") auto
  moreover obtain y ys where "split_nl b = y # ys" by (cases "split_nl b") auto
  ultimately show ?thesis by (simp add: butlast_append)
qed

lemma split_nl_snoc_line:
  assumes "CHR 0x0A \<notin> set l"
  shows "butlast (tl (split_nl (y @ CHR 0x0A # l))) = tl (split_nl y)"
proof -
  have "split_nl (y @ CHR 0x0A # l) = split_nl y @ [l]"
    using assms by (simp add: split_nl_append split_nl_line del: split_nl.simps)
  moreover obtain x xs where "split_nl y = x # xs" by (cases "split_nl y") auto
  ultimately show ?thesis by (simp add: butlast_append)
qed


lemma py_find_drop:
  assumes "py_find s sub n \<noteq> - 1"
  shows "\<exists>i. py_find s sub n = int (n + i) \<and> find_sub sub (drop n s) = Some i \<and> n \<le> length s"
  using assms by (auto simp: py_find_def split: if_splits option.splits)

lemma parse_frontmatter_no_start:
  "\<not> startswith content ''---\<newline>'' \<Longrightarrow>
   parse_frontmatter ext content self = Inr ((YNone, content), self)"
  by (simp add: parse_frontmatter_def)

lemma parse_frontmatter_no_end:
  "py_find content ''\<newline>---\<newline>'' 4 = - 1 \<Longrightarrow>
   parse_frontmatter ext content self = Inr ((YNone, content), self)"
  by (simp add: parse_frontmatter_def)

lemma parse_frontmatter_found:
  assumes "startswith content ''---\<newline>''"
    and "find_sub ''\<newline>---\<newline>'' (drop 4 content) = Some i"
  shows "parse_frontmatter ext content self =
     (case safe_load ext (take i (drop 4 content)) of
        Inr frontmatter \<Rightarrow> Inr ((frontmatter, drop (i + 5) (drop 4 content)), self)
      | Inl (YAMLError e) \<Rightarrow>
          Inr ((YNone, content), add_error self (''Invalid YAML frontmatter: '' @ e))
      | Inl x \<Rightarrow> Inl x)"
proof -
  from assms(1) have "take 4 content = ''---\<newline>''" by (simp add: startswith_def eval_nat_numeral)
  then have "length (take 4 content) = 4" by simp
  then have len: "4 \<le> length content" by simp
  with assms(2) have pf: "py_find content ''\<newline>---\<newline>'' 4 = int (4 + i)"
    by (simp add: py_find_def)
  have "nat (int (4 + i)) = 4 + i" "nat (int (4 + i) + 5) = (i + 5) + 4"
    by simp_all
  then have sl: "slice content 4 (nat (int (4 + i))) = take i (drop 4 content)"
    "drop (nat (int (4 + i) + 5)) content = drop (i + 5) (drop 4 content)"
    by (simp_all add: slice_def)
  have "int (4 + i) \<noteq> - 1" by simp
  with assms(1) show ?thesis
    unfolding parse_frontmatter_def pf Let_def sl by simp
qed

lemma startswith_delim_decomp:
  "startswith content ''---\<newline>'' \<Longrightarrow> content = ''---\<newline>'' @ drop 4 content"
proof -
  assume "startswith content ''---\<newline>''"
  then have "take 4 content = ''---\<newline>''" by (simp add: startswith_def eval_nat_numeral)
  then show ?thesis using append_take_drop_id [of 4 content] by simp
qed

lemma no_delimiter_line_no_occurrence:
  assumes "''---'' \<notin> set (tl (split_nl y))"
  shows "find_sub ''\<newline>---\<newline>'' (y @ ''\<newline>---'') = None"
proof (rule ccontr)
  assume "find_sub ''\<newline>---\<newline>'' (y @ ''\<newline>---'') \<noteq> None"
  then obtain i where "find_sub ''\<newline>---\<newline>'' (y @ ''\<newline>---'') = Some i" by auto
  from find_sub_Some [OF this] obtain a b where
    "y @ ''\<newline>---'' = a @ ''\<newline>---\<newline>'' @ b" by blast
  then have "y @ CHR 0x0A # ''---'' = a @ CHR 0x0A # ''---'' @ CHR 0x0A # b" by simp
  from occurrence_is_line [OF this]
  have "''---'' \<in> set (butlast (tl (split_nl (y @ CHR 0x0A # ''---''))))" by simp
  moreover have "butlast (tl (split_nl (y @ CHR 0x0A # ''---''))) = tl (split_nl y)"
    by (rule split_nl_snoc_line) simp
  ultimately show False using assms by simp
qed

text \<open>
  Claim C10. When the extractor returns a frontmatter other than \<^verbatim>\<open>None\<close>, the
  content is the four characters \<^verbatim>\<open>---\<close> and line feed, a header text, the closing
  delimiter with a line feed on both sides, and the body returned; the frontmatter is
  what the loader makes of the header text, and nothing is recorded. And a document
  that ends in its closing \<^verbatim>\<open>---\<close> with no line feed after it, no line of the header
  after the first being \<^verbatim>\<open>---\<close>, yields \<^verbatim>\<open>None\<close> and the content unchanged.
\<close>

theorem parse_frontmatter_delimited:
  "(parse_frontmatter ext content self = Inr ((fm, md), self') \<and> fm \<noteq> YNone \<longrightarrow>
      (\<exists>y. content = ''---\<newline>'' @ y @ ''\<newline>---\<newline>'' @ md \<and>
           safe_load ext y = Inr fm \<and> self' = self)) \<and>
   (''---'' \<notin> set (tl (split_nl y)) \<longrightarrow>
      parse_frontmatter ext (''---\<newline>'' @ y @ ''\<newline>---'') self =
        Inr ((YNone, ''---\<newline>'' @ y @ ''\<newline>---''), self))"
proof (intro conjI impI)
  assume a: "parse_frontmatter ext content self = Inr ((fm, md), self') \<and> fm \<noteq> YNone"
  have sw: "startswith content ''---\<newline>''"
  proof (rule ccontr)
    assume "\<not> startswith content ''---\<newline>''"
    from parse_frontmatter_no_start [OF this, of ext self] a show False by auto
  qed
  have "find_sub ''\<newline>---\<newline>'' (drop 4 content) \<noteq> None"
  proof
    assume "find_sub ''\<newline>---\<newline>'' (drop 4 content) = None"
    then have "py_find content ''\<newline>---\<newline>'' 4 = - 1" by (simp add: py_find_def)
    from parse_frontmatter_no_end [OF this, of ext self] a show False by auto
  qed
  then obtain i where i: "find_sub ''\<newline>---\<newline>'' (drop 4 content) = Some i" by auto
  let ?y = "take i (drop 4 content)"
  from a parse_frontmatter_found [OF sw i, of ext self]
  have r: "safe_load ext ?y = Inr fm \<and> md = drop (i + 5) (drop 4 content) \<and> self' = self"
    by (auto split: sum.splits exn.splits)
  from find_sub_Some [OF i]
  have "drop 4 content = ?y @ ''\<newline>---\<newline>'' @ drop (i + 5) (drop 4 content)"
    by simp
  with r have "drop 4 content = ?y @ ''\<newline>---\<newline>'' @ md" by simp
  with startswith_delim_decomp [OF sw]
  have "content = ''---\<newline>'' @ ?y @ ''\<newline>---\<newline>'' @ md" by simp
  with r show "\<exists>y. content = ''---\<newline>'' @ y @ ''\<newline>---\<newline>'' @ md \<and>
           safe_load ext y = Inr fm \<and> self' = self"
    by blast
next
  assume nl: "''---'' \<notin> set (tl (split_nl y))"
  let ?c = "''---\<newline>'' @ y @ ''\<newline>---''"
  from no_delimiter_line_no_occurrence [OF nl]
  have "py_find ?c ''\<newline>---\<newline>'' 4 = - 1"
    by (simp add: py_find_def)
  then show "parse_frontmatter ext ?c self = Inr ((YNone, ?c), self)"
    by (rule parse_frontmatter_no_end)
qed

text \<open>The extractor on a closed and on a truncated sample header.\<close>

theorem parse_frontmatter_delimited_witness:
  "parse_frontmatter sample_ext ''---\<newline>type: TDM\<newline>---\<newline>body'' sample_validator =
     Inr ((YDict [(YStr ''type'', YStr ''TDM'')], ''body''), sample_validator) \<and>
   YDict [(YStr ''type'', YStr ''TDM'')] \<noteq> YNone \<and>
   (\<exists>y. ''---\<newline>type: TDM\<newline>---\<newline>body'' = ''---\<newline>'' @ y @ ''\<newline>---\<newline>'' @ ''body'' \<and>
        safe_load sample_ext y = Inr (YDict [(YStr ''type'', YStr ''TDM'')])) \<and>
   ''---'' \<notin> set (tl (split_nl ''type: TDM'')) \<and>
   parse_frontmatter sample_ext (''---\<newline>'' @ ''type: TDM'' @ ''\<newline>---'') sample_validator =
     Inr ((YNone, ''---\<newline>'' @ ''type: TDM'' @ ''\<newline>---''), sample_validator)"
proof -
  have h1: "parse_frontmatter sample_ext ''---\<newline>type: TDM\<newline>---\<newline>body'' sample_validator =
     Inr ((YDict [(YStr ''type'', YStr ''TDM'')], ''body''), sample_validator)"
    by (simp add: parse_frontmatter_def startswith_def py_find_def slice_def sample_ext_def
        sample_header_def)
  have h2: "''---'' \<notin> set (tl (split_nl ''type: TDM''))" by simp
  from parse_frontmatter_delimited
    [of sample_ext "''---\<newline>type: TDM\<newline>---\<newline>body''" sample_validator
        "YDict [(YStr ''type'', YStr ''TDM'')]" "''body''" sample_validator "''type: TDM''"] h1 h2
  show ?thesis by blast
qed

subsection \<open>Results and file-level failures\<close>

lemma and_then_Inr:
  "and_then m f = Inr r \<Longrightarrow> \<exists>x. m = Inr x \<and> f x = Inr r"
  by (cases m) (simp_all add: and_then_def)

lemma and_then_simps [simp]:
  "and_then (Inr x) f = f x" "and_then (Inl e) f = Inl e"
  by (simp_all add: and_then_def)

lemma create_result_valid:
  "create_result self file_path frontmatter secs = Inr r \<Longrightarrow> r_valid r = (r_errors r = [])"
  by (auto simp: create_result_def dest!: and_then_Inr)

lemma create_error_result_valid:
  "r_valid (create_error_result msg) = (r_errors (create_error_result msg) = [])"
  by (simp add: create_error_result_def)

lemma validate_file_valid:
  assumes "validate_file ext self file_path read = Inr r"
  shows "r_valid r = (r_errors r = [])"
proof (cases read)
  case (Inl e)
  with assms show ?thesis
    by (cases e) (auto simp: validate_file_def create_error_result_def)
next
  case (Inr content)
  let ?self0 = "self\<lparr>errors := [], warnings := []\<rparr>"
  from assms Inr obtain frontmatter markdown_content self1 where
    pf: "parse_frontmatter ext content ?self0 = Inr ((frontmatter, markdown_content), self1)"
    by (cases "parse_frontmatter ext content ?self0") (auto simp: validate_file_def)
  show ?thesis
  proof (cases "truthy frontmatter")
    case False
    with assms Inr pf show ?thesis
      by (auto simp: validate_file_def dest: create_result_valid)
  next
    case True
    with assms Inr pf show ?thesis
      by (auto simp: validate_file_def split: prod.splits dest!: and_then_Inr dest: create_result_valid)
  qed
qed

lemma validate_each_valid:
  "validate_each ext self files = Inr rs \<Longrightarrow> r \<in> set rs \<Longrightarrow> r_valid r = (r_errors r = [])"
proof (induction files arbitrary: rs)
  case Nil
  then show ?case by simp
next
  case (Cons f files)
  obtain file_path read where f: "f = (file_path, read)" by (cases f)
  from Cons.prems(1) f obtain r0 rs0 where
    r0: "validate_file ext self file_path read = Inr r0" and
    rs0: "validate_each ext self files = Inr rs0" and rs: "rs = r0 # rs0"
    by (auto dest!: and_then_Inr)
  from Cons.prems(2) rs consider "r = r0" | "r \<in> set rs0" by auto
  then show ?case
  proof cases
    case 1
    with validate_file_valid [OF r0] show ?thesis by simp
  next
    case 2
    with Cons.IH [OF rs0] show ?thesis by simp
  qed
qed

text \<open>
  Claim C2. In every result that \<^verbatim>\<open>validate_file\<close> returns, and in every result of
  the list that \<^verbatim>\<open>validate_directory\<close> returns, the file-level and directory-level
  failure results among them, the validity flag is true exactly when the error list
  is empty.
\<close>

theorem valid_iff_no_errors:
  "(validate_file ext self file_path read = Inr r \<longrightarrow> r_valid r = (r_errors r = [])) \<and>
   (validate_directory ext self dir_path is_dir tdr_files = Inr rs \<longrightarrow>
      (\<forall>r \<in> set rs. r_valid r = (r_errors r = [])))"
proof (intro conjI impI ballI)
  assume "validate_file ext self file_path read = Inr r"
  then show "r_valid r = (r_errors r = [])" by (rule validate_file_valid)
next
  fix r'
  assume d: "validate_directory ext self dir_path is_dir tdr_files = Inr rs" and r': "r' \<in> set rs"
  show "r_valid r' = (r_errors r' = [])"
  proof (cases "\<not> is_dir \<or> tdr_files = []")
    case True
    with d r' show ?thesis
      by (auto simp: validate_directory_def create_error_result_def split: if_splits)
  next
    case False
    with d have "validate_each ext self (sort_key fst tdr_files) = Inr rs"
      by (simp add: validate_directory_def)
    from validate_each_valid [OF this r'] show ?thesis .
  qed
qed

lemma not_delimited_cases:
  assumes "\<nexists>y b. content = ''---\<newline>'' @ y @ ''\<newline>---\<newline>'' @ b"
  shows "\<not> startswith content ''---\<newline>'' \<or> py_find content ''\<newline>---\<newline>'' 4 = - 1"
proof (rule ccontr)
  assume "\<not> ?thesis"
  then have sw: "startswith content ''---\<newline>''"
    and pf: "py_find content ''\<newline>---\<newline>'' 4 \<noteq> - 1" by simp_all
  from py_find_drop [OF pf] obtain i where
    i: "find_sub ''\<newline>---\<newline>'' (drop 4 content) = Some i" by blast
  from find_sub_Some [OF i] obtain y b where
    "drop 4 content = y @ ''\<newline>---\<newline>'' @ b" by blast
  with startswith_delim_decomp [OF sw]
  have "content = ''---\<newline>'' @ y @ ''\<newline>---\<newline>'' @ b" by simp
  with assms show False by blast
qed

lemma parse_frontmatter_missing:
  assumes "\<nexists>y b. content = ''---\<newline>'' @ y @ ''\<newline>---\<newline>'' @ b"
  shows "parse_frontmatter ext content self = Inr ((YNone, content), self)"
  using not_delimited_cases [OF assms] parse_frontmatter_no_start parse_frontmatter_no_end
  by blast

lemma validate_file_no_frontmatter:
  assumes "parse_frontmatter ext content (self\<lparr>errors := [], warnings := []\<rparr>) =
             Inr ((YNone, content'), self1)"
  shows "validate_file ext self file_path (Inr content) =
     Inr \<lparr>r_file = file_path, r_valid = (errors self1 = []) \<and> False,
          r_errors = errors self1 @ [''Missing or invalid YAML frontmatter''],
          r_warnings = warnings self1,
          r_metadata = Some \<lparr>m_frontmatter = YNone, m_section_count = 0, m_sections = [],
                              m_has_ai_context = False\<rparr>\<rparr>"
  using assms by (simp add: validate_file_def create_result_def add_error_def)

text \<open>
  Claim C3. A content that is not \<^verbatim>\<open>---\<close> and a line feed, a header text, a closing
  \<^verbatim>\<open>---\<close> between two line feeds and a body (it does not begin with the delimiter
  line, or no closing delimiter line follows) gives the result with exactly the one
  error of the missing header and no warning, whatever the content holds: no field,
  section, cross-reference or AI-context check has run. Its metadata holds \<^verbatim>\<open>None\<close> for
  the frontmatter and no section.
\<close>

theorem validate_file_missing_header:
  assumes "\<nexists>y b. content = ''---\<newline>'' @ y @ ''\<newline>---\<newline>'' @ b"
  shows "validate_file ext self file_path (Inr content) =
     Inr \<lparr>r_file = file_path, r_valid = False,
          r_errors = [''Missing or invalid YAML frontmatter''],
          r_warnings = [],
          r_metadata = Some \<lparr>m_frontmatter = YNone, m_section_count = 0, m_sections = [],
                              m_has_ai_context = False\<rparr>\<rparr>"
  using validate_file_no_frontmatter [OF parse_frontmatter_missing [OF assms]]
  by simp

lemma startswith_append_shorter:
  assumes "startswith (xs @ [z] @ b) sub" "length sub \<le> length xs"
  shows "startswith xs sub"
  using assms by (simp add: startswith_def)

lemma find_sub_first:
  assumes "find_sub (s @ [z]) (y @ s) = None"
  shows "find_sub (s @ [z]) (y @ (s @ [z]) @ b) = Some (length y)"
  using assms
proof (induction y)
  case Nil
  obtain c cs where c: "(s @ [z]) @ b = c # cs" by (cases "(s @ [z]) @ b") auto
  have "startswith ((s @ [z]) @ b) (s @ [z])" by (simp add: startswith_def)
  then have "find_sub (s @ [z]) (c # cs) = Some 0" unfolding c by simp
  then show ?case unfolding c [symmetric] by simp
next
  case (Cons c cs)
  from Cons.prems have ns: "\<not> startswith ((c # cs) @ s) (s @ [z])"
    and rec: "find_sub (s @ [z]) (cs @ s) = None"
    by (auto split: if_splits)
  have "\<not> startswith ((c # cs) @ (s @ [z]) @ b) (s @ [z])"
  proof
    assume "startswith ((c # cs) @ (s @ [z]) @ b) (s @ [z])"
    then have "startswith (((c # cs) @ s) @ [z] @ b) (s @ [z])" by simp
    then have "startswith ((c # cs) @ s) (s @ [z])"
      by (rule startswith_append_shorter) simp
    with ns show False by contradiction
  qed
  with Cons.IH [OF rec] show ?case by simp
qed

lemma find_delimiter_first:
  assumes "''---'' \<notin> set (tl (split_nl y))"
  shows "find_sub ''\<newline>---\<newline>'' (y @ ''\<newline>---\<newline>'' @ b) = Some (length y)"
proof -
  from no_delimiter_line_no_occurrence [OF assms]
  have "find_sub (''\<newline>---'' @ [CHR 0x0A]) (y @ ''\<newline>---'') = None" by simp
  from find_sub_first [OF this, of b] show ?thesis by simp
qed

lemma parse_frontmatter_closed:
  assumes "''---'' \<notin> set (tl (split_nl y))"
  shows "parse_frontmatter ext (''---\<newline>'' @ y @ ''\<newline>---\<newline>'' @ b) self =
     (case safe_load ext y of
        Inr frontmatter \<Rightarrow> Inr ((frontmatter, b), self)
      | Inl (YAMLError e) \<Rightarrow>
          Inr ((YNone, ''---\<newline>'' @ y @ ''\<newline>---\<newline>'' @ b),
               add_error self (''Invalid YAML frontmatter: '' @ e))
      | Inl x \<Rightarrow> Inl x)"
proof -
  let ?c = "''---\<newline>'' @ y @ ''\<newline>---\<newline>'' @ b"
  have sw: "startswith ?c ''---\<newline>''" by (simp add: startswith_def)
  have d4: "drop 4 ?c = y @ ''\<newline>---\<newline>'' @ b" by simp
  have fs: "find_sub ''\<newline>---\<newline>'' (drop 4 ?c) = Some (length y)"
    unfolding d4 by (rule find_delimiter_first [OF assms])
  have tk: "take (length y) (drop 4 ?c) = y" and dr: "drop (length y + 5) (drop 4 ?c) = b"
    unfolding d4 by simp_all
  from parse_frontmatter_found [OF sw fs, of ext self] show ?thesis
    by (simp only: tk dr)
qed

text \<open>A text with an unknown reference and no header.\<close>

lemma sample_not_delimited:
  "\<nexists>y b. ''see XYZ-1'' = ''---\<newline>'' @ y @ ''\<newline>---\<newline>'' @ b"
  by simp

theorem validate_file_missing_header_witness:
  "(\<nexists>y b. ''see XYZ-1'' = ''---\<newline>'' @ y @ ''\<newline>---\<newline>'' @ b) \<and>
   validate_file sample_ext sample_validator ''a.md'' (Inr ''see XYZ-1'') =
     Inr \<lparr>r_file = ''a.md'', r_valid = False,
          r_errors = [''Missing or invalid YAML frontmatter''],
          r_warnings = [],
          r_metadata = Some \<lparr>m_frontmatter = YNone, m_section_count = 0, m_sections = [],
                              m_has_ai_context = False\<rparr>\<rparr>"
  using validate_file_missing_header [OF sample_not_delimited, of sample_ext sample_validator "''a.md''"]
    sample_not_delimited
  by blast

text \<open>
  Claim C4, as amended. A file that is not found, a file that is not UTF-8 and a
  content with no delimited header each give a result with exactly one error, and
  \<^verbatim>\<open>validate_file\<close> returns. A header that the loader rejects with \<^verbatim>\<open>YAMLError\<close>
  gives a result too, with two errors: the loader's message, recorded by the
  extractor, and then the error of the missing header.
\<close>

theorem validate_file_file_level_failures:
  "validate_file ext self file_path (Inl FileNotFoundError) =
     Inr (create_error_result (''File not found: '' @ file_path)) \<and>
   validate_file ext self file_path (Inl UnicodeDecodeError) =
     Inr (create_error_result (''Invalid UTF-8 encoding: '' @ file_path)) \<and>
   length (r_errors (create_error_result msg)) = 1 \<and>
   ((\<nexists>y b. content = ''---\<newline>'' @ y @ ''\<newline>---\<newline>'' @ b) \<longrightarrow>
      (\<exists>r. validate_file ext self file_path (Inr content) = Inr r \<and>
           r_errors r = [''Missing or invalid YAML frontmatter''])) \<and>
   (''---'' \<notin> set (tl (split_nl y)) \<and> safe_load ext y = Inl (YAMLError e) \<longrightarrow>
      (\<exists>r. validate_file ext self file_path (Inr (''---\<newline>'' @ y @ ''\<newline>---\<newline>'' @ b)) = Inr r \<and>
           r_errors r = [''Invalid YAML frontmatter: '' @ e,
                         ''Missing or invalid YAML frontmatter'']))"
proof (intro conjI impI)
  show "validate_file ext self file_path (Inl FileNotFoundError) =
     Inr (create_error_result (''File not found: '' @ file_path))"
    by (simp add: validate_file_def)
  show "validate_file ext self file_path (Inl UnicodeDecodeError) =
     Inr (create_error_result (''Invalid UTF-8 encoding: '' @ file_path))"
    by (simp add: validate_file_def)
  show "length (r_errors (create_error_result msg)) = 1"
    by (simp add: create_error_result_def)
next
  assume "\<nexists>y b. content = ''---\<newline>'' @ y @ ''\<newline>---\<newline>'' @ b"
  from validate_file_no_frontmatter [OF parse_frontmatter_missing [OF this], of ext self file_path]
  show "\<exists>r. validate_file ext self file_path (Inr content) = Inr r \<and>
           r_errors r = [''Missing or invalid YAML frontmatter'']"
    by simp
next
  assume a: "''---'' \<notin> set (tl (split_nl y)) \<and> safe_load ext y = Inl (YAMLError e)"
  let ?c = "''---\<newline>'' @ y @ ''\<newline>---\<newline>'' @ b"
  let ?self0 = "self\<lparr>errors := [], warnings := []\<rparr>"
  from a parse_frontmatter_closed [of y ext b ?self0]
  have "parse_frontmatter ext ?c ?self0 =
          Inr ((YNone, ?c), add_error ?self0 (''Invalid YAML frontmatter: '' @ e))"
    by simp
  from validate_file_no_frontmatter [OF this, of file_path]
  show "\<exists>r. validate_file ext self file_path (Inr ?c) = Inr r \<and>
           r_errors r = [''Invalid YAML frontmatter: '' @ e,
                         ''Missing or invalid YAML frontmatter'']"
    by (simp add: add_error_def)
qed

text \<open>
  The claim as stated fails: a header that holds an unclosed sequence is a decode
  failure, and its result has two errors.
\<close>

theorem validate_file_decode_failure_two_errors:
  "validate_file sample_ext sample_validator ''a.md'' (Inr ''---\<newline>[\<newline>---\<newline>'') =
     Inr \<lparr>r_file = ''a.md'', r_valid = False,
          r_errors = [''Invalid YAML frontmatter: while parsing a flow node'',
                      ''Missing or invalid YAML frontmatter''],
          r_warnings = [],
          r_metadata = Some \<lparr>m_frontmatter = YNone, m_section_count = 0, m_sections = [],
                              m_has_ai_context = False\<rparr>\<rparr>"
proof -
  have "parse_frontmatter sample_ext ''---\<newline>[\<newline>---\<newline>''
          (sample_validator\<lparr>errors := [], warnings := []\<rparr>) =
        Inr ((YNone, ''---\<newline>[\<newline>---\<newline>''),
             add_error (sample_validator\<lparr>errors := [], warnings := []\<rparr>)
               ''Invalid YAML frontmatter: while parsing a flow node'')"
    by (simp add: parse_frontmatter_def startswith_def py_find_def slice_def sample_ext_def
        sample_header_def)
  from validate_file_no_frontmatter [OF this, of "''a.md''"] show ?thesis
    by (simp add: add_error_def sample_validator_def)
qed

theorem validate_file_file_level_failures_witness:
  "(\<nexists>y b. ''see XYZ-1'' = ''---\<newline>'' @ y @ ''\<newline>---\<newline>'' @ b) \<and>
   (\<exists>r. validate_file sample_ext sample_validator ''a.md'' (Inr ''see XYZ-1'') = Inr r \<and>
        r_errors r = [''Missing or invalid YAML frontmatter'']) \<and>
   ''---'' \<notin> set (tl (split_nl ''['')) \<and>
   safe_load sample_ext ''['' = Inl (YAMLError ''while parsing a flow node'') \<and>
   (\<exists>r. validate_file sample_ext sample_validator ''a.md''
          (Inr (''---\<newline>'' @ ''['' @ ''\<newline>---\<newline>'' @ ''body'')) = Inr r \<and>
        r_errors r = [''Invalid YAML frontmatter: '' @ ''while parsing a flow node'',
                      ''Missing or invalid YAML frontmatter''])"
proof -
  have h2: "''---'' \<notin> set (tl (split_nl ''[''))" by simp
  have h3: "safe_load sample_ext ''['' = Inl (YAMLError ''while parsing a flow node'')"
    by (simp add: sample_ext_def sample_header_def)
  from validate_file_file_level_failures
    [of sample_ext sample_validator "''a.md''" "[]" "''see XYZ-1''" "''[''"
        "''while parsing a flow node''" "''body''"]
    sample_not_delimited h2 h3
  show ?thesis by blast
qed

theorem valid_iff_no_errors_witness:
  "validate_file sample_ext sample_validator ''a.md'' (Inr ''see XYZ-1'') =
     Inr \<lparr>r_file = ''a.md'', r_valid = False,
          r_errors = [''Missing or invalid YAML frontmatter''],
          r_warnings = [],
          r_metadata = Some \<lparr>m_frontmatter = YNone, m_section_count = 0, m_sections = [],
                              m_has_ai_context = False\<rparr>\<rparr> \<and>
   validate_directory sample_ext sample_validator ''docs'' True
       [(''docs/b.md'', Inr ''see XYZ-1''), (''docs/a.md'', Inl UnicodeDecodeError)] =
     Inr [create_error_result ''Invalid UTF-8 encoding: docs/a.md'',
          \<lparr>r_file = ''docs/b.md'', r_valid = False,
           r_errors = [''Missing or invalid YAML frontmatter''],
           r_warnings = [],
           r_metadata = Some \<lparr>m_frontmatter = YNone, m_section_count = 0, m_sections = [],
                               m_has_ai_context = False\<rparr>\<rparr>] \<and>
   list_all (\<lambda>r. r_valid r = (r_errors r = []))
     [create_error_result ''Invalid UTF-8 encoding: docs/a.md'',
      \<lparr>r_file = ''docs/b.md'', r_valid = False,
       r_errors = [''Missing or invalid YAML frontmatter''],
       r_warnings = [],
       r_metadata = Some \<lparr>m_frontmatter = YNone, m_section_count = 0, m_sections = [],
                           m_has_ai_context = False\<rparr>\<rparr>]"
  (is "?f = Inr ?r \<and> ?d = Inr ?rs \<and> list_all ?P ?rs")
proof -
  have f: "\<And>p. validate_file sample_ext sample_validator p (Inr ''see XYZ-1'') =
     Inr \<lparr>r_file = p, r_valid = False,
          r_errors = [''Missing or invalid YAML frontmatter''],
          r_warnings = [],
          r_metadata = Some \<lparr>m_frontmatter = YNone, m_section_count = 0, m_sections = [],
                              m_has_ai_context = False\<rparr>\<rparr>"
    by (rule validate_file_no_frontmatter [OF parse_frontmatter_missing [OF sample_not_delimited], simplified])
  have g: "validate_file sample_ext sample_validator ''docs/a.md'' (Inl UnicodeDecodeError) =
     Inr (create_error_result ''Invalid UTF-8 encoding: docs/a.md'')"
    by (simp add: validate_file_def)
  have d: "?d = Inr ?rs"
    by (simp add: validate_directory_def f g)
  from valid_iff_no_errors [of sample_ext sample_validator "''a.md''" "Inr ''see XYZ-1''" ?r
      "''docs''" True "[(''docs/b.md'', Inr ''see XYZ-1''), (''docs/a.md'', Inl UnicodeDecodeError)]" ?rs]
    f d
  show ?thesis by (simp add: list_all_iff)
qed

subsection \<open>Field and AI-context validation on odd values\<close>

lemma lookup_dict:
  "lookup k (YDict d) = Inr (map_of d (YStr k))"
proof (cases "map_of d (YStr k)")
  case None
  then have "YStr k \<notin> set (map fst d)" by (simp add: map_of_eq_None_iff)
  with None show ?thesis by (simp add: lookup_def)
next
  case (Some v)
  then have "YStr k \<in> set (map fst d)" by (metis map_of_eq_None_iff option.distinct(1) set_map)
  with Some show ?thesis by (simp add: lookup_def)
qed

lemma check_summary_frame:
  "\<exists>ws. check_summary a self = self\<lparr>warnings := warnings self @ ws\<rparr>"
proof (cases "check_summary a self = self")
  case True
  then have "check_summary a self = self\<lparr>warnings := warnings self @ []\<rparr>" by simp
  then show ?thesis by blast
next
  case False
  then have "check_summary a self =
    add_warning self ''AI context summary should be a descriptive string (20+ chars)''"
    by (auto simp: check_summary_def split: option.splits yaml.splits if_splits)
  then show ?thesis unfolding add_warning_def by blast
qed

lemma check_keywords_frame:
  "\<exists>ws. check_keywords a self = self\<lparr>warnings := warnings self @ ws\<rparr>"
proof (cases "check_keywords a self = self")
  case True
  then have "check_keywords a self = self\<lparr>warnings := warnings self @ []\<rparr>" by simp
  then show ?thesis by blast
next
  case False
  then have "check_keywords a self = add_warning self ''AI context keywords should be a list''"
    by (auto simp: check_keywords_def split: option.splits yaml.splits)
  then show ?thesis unfolding add_warning_def by blast
qed

lemma check_complexity_level_frame:
  "\<exists>ws. check_complexity_level a self = self\<lparr>warnings := warnings self @ ws\<rparr>"
proof (cases "check_complexity_level a self = self")
  case True
  then have "check_complexity_level a self = self\<lparr>warnings := warnings self @ []\<rparr>" by simp
  then show ?thesis by blast
next
  case False
  then have "\<exists>w. check_complexity_level a self = add_warning self w"
    by (auto simp: check_complexity_level_def split: option.splits if_splits)
  then show ?thesis unfolding add_warning_def by blast
qed

lemma ai_context_checks_frame:
  "\<exists>ws. check_complexity_level a (check_keywords a (check_summary a self)) =
        self\<lparr>warnings := warnings self @ ws\<rparr>"
proof -
  obtain w1 where 1: "check_summary a self = self\<lparr>warnings := warnings self @ w1\<rparr>"
    using check_summary_frame by blast
  define s1 where "s1 = self\<lparr>warnings := warnings self @ w1\<rparr>"
  obtain w2 where 2: "check_keywords a s1 = s1\<lparr>warnings := warnings s1 @ w2\<rparr>"
    using check_keywords_frame by blast
  define s2 where "s2 = s1\<lparr>warnings := warnings s1 @ w2\<rparr>"
  obtain w3 where 3: "check_complexity_level a s2 = s2\<lparr>warnings := warnings s2 @ w3\<rparr>"
    using check_complexity_level_frame by blast
  have "check_complexity_level a (check_keywords a (check_summary a self)) =
      s2\<lparr>warnings := warnings s2 @ w3\<rparr>"
    using 1 2 3 by (simp add: s1_def [symmetric] s2_def [symmetric])
  also have "\<dots> = self\<lparr>warnings := warnings self @ (w1 @ w2 @ w3)\<rparr>"
    by (simp add: s1_def s2_def)
  finally show ?thesis by blast
qed

text \<open>
  Claim C9, as amended. On a frontmatter mapping the AI-context validator returns. With
  no \<^verbatim>\<open>ai-context\<close> key it records nothing. With an \<^verbatim>\<open>ai-context\<close> that is a nested
  mapping it appends warnings only and leaves the error list as it was. With an
  \<^verbatim>\<open>ai-context\<close> of any other kind it appends exactly one error, that the value must
  be a dictionary, and no warning.
\<close>

theorem validate_ai_context_diagnostics:
  "(map_of d (YStr ''ai-context'') = None \<longrightarrow> validate_ai_context (YDict d) self = Inr self) \<and>
   (map_of d (YStr ''ai-context'') = Some (YDict a) \<longrightarrow>
      (\<exists>ws. validate_ai_context (YDict d) self = Inr (self\<lparr>warnings := warnings self @ ws\<rparr>))) \<and>
   (map_of d (YStr ''ai-context'') = Some v \<and> (\<nexists>a. v = YDict a) \<longrightarrow>
      validate_ai_context (YDict d) self =
        Inr (self\<lparr>errors := errors self @ [''ai-context must be a dictionary'']\<rparr>))"
proof (intro conjI impI)
  assume "map_of d (YStr ''ai-context'') = None"
  then show "validate_ai_context (YDict d) self = Inr self"
    by (simp add: validate_ai_context_def lookup_dict)
next
  assume "map_of d (YStr ''ai-context'') = Some (YDict a)"
  then have "validate_ai_context (YDict d) self =
      Inr (check_complexity_level a (check_keywords a (check_summary a self)))"
    by (simp add: validate_ai_context_def lookup_dict)
  with ai_context_checks_frame [of a self]
  show "\<exists>ws. validate_ai_context (YDict d) self = Inr (self\<lparr>warnings := warnings self @ ws\<rparr>)"
    by auto
next
  assume "map_of d (YStr ''ai-context'') = Some v \<and> (\<nexists>a. v = YDict a)"
  then show "validate_ai_context (YDict d) self =
        Inr (self\<lparr>errors := errors self @ [''ai-context must be a dictionary'']\<rparr>)"
    by (cases v) (simp_all add: validate_ai_context_def lookup_dict add_error_def)
qed

text \<open>
  The claim as stated fails: an \<^verbatim>\<open>ai-context\<close> that is a string puts an error into the
  error list.
\<close>

theorem validate_ai_context_appends_error:
  "validate_ai_context (YDict [(YStr ''ai-context'', YStr ''x'')]) sample_validator =
     Inr \<lparr>strict_mode = False, errors = [''ai-context must be a dictionary''], warnings = []\<rparr>"
  by (simp add: validate_ai_context_def lookup_dict add_error_def sample_validator_def)

text \<open>The three cases on sample mappings.\<close>

theorem validate_ai_context_diagnostics_witness:
  "map_of [(YStr ''title'', YStr ''T'')] (YStr ''ai-context'') = None \<and>
   validate_ai_context (YDict [(YStr ''title'', YStr ''T'')]) sample_validator = Inr sample_validator \<and>
   map_of [(YStr ''ai-context'', YDict [(YStr ''summary'', YStr ''short'')])] (YStr ''ai-context'') =
     Some (YDict [(YStr ''summary'', YStr ''short'')]) \<and>
   (\<exists>ws. validate_ai_context (YDict [(YStr ''ai-context'', YDict [(YStr ''summary'', YStr ''short'')])])
           sample_validator =
         Inr (sample_validator\<lparr>warnings := warnings sample_validator @ ws\<rparr>)) \<and>
   map_of [(YStr ''ai-context'', YStr ''x'')] (YStr ''ai-context'') = Some (YStr ''x'') \<and>
   (\<nexists>a. YStr ''x'' = YDict a) \<and>
   validate_ai_context (YDict [(YStr ''ai-context'', YStr ''x'')]) sample_validator =
     Inr (sample_validator\<lparr>errors := errors sample_validator @ [''ai-context must be a dictionary'']\<rparr>)"
proof -
  have h1: "map_of [(YStr ''title'', YStr ''T'')] (YStr ''ai-context'') = None" by simp
  have h2: "map_of [(YStr ''ai-context'', YDict [(YStr ''summary'', YStr ''short'')])] (YStr ''ai-context'') =
     Some (YDict [(YStr ''summary'', YStr ''short'')])" by simp
  have h3: "map_of [(YStr ''ai-context'', YStr ''x'')] (YStr ''ai-context'') = Some (YStr ''x'')" by simp
  have h4: "\<nexists>a. YStr ''x'' = YDict a" by simp
  from validate_ai_context_diagnostics
    [where d = "[(YStr ''title'', YStr ''T'')]" and self = sample_validator] h1
  have c1: "validate_ai_context (YDict [(YStr ''title'', YStr ''T'')]) sample_validator = Inr sample_validator"
    by blast
  from validate_ai_context_diagnostics
    [where d = "[(YStr ''ai-context'', YDict [(YStr ''summary'', YStr ''short'')])]"
       and a = "[(YStr ''summary'', YStr ''short'')]" and self = sample_validator] h2
  have c2: "\<exists>ws. validate_ai_context (YDict [(YStr ''ai-context'', YDict [(YStr ''summary'', YStr ''short'')])])
           sample_validator =
         Inr (sample_validator\<lparr>warnings := warnings sample_validator @ ws\<rparr>)"
    by blast
  from validate_ai_context_diagnostics
    [where d = "[(YStr ''ai-context'', YStr ''x'')]" and self = sample_validator
       and v = "YStr ''x''"] h3 h4
  have c3: "validate_ai_context (YDict [(YStr ''ai-context'', YStr ''x'')]) sample_validator =
     Inr (sample_validator\<lparr>errors := errors sample_validator @ [''ai-context must be a dictionary'']\<rparr>)"
    by blast
  from h1 h2 h3 h4 c1 c2 c3 show ?thesis by blast
qed

text \<open>
  Claim C5 does not hold of the code. The field validator calls \<^verbatim>\<open>upper\<close> on the value
  of \<^verbatim>\<open>type\<close> and \<^verbatim>\<open>lower\<close> on the value of \<^verbatim>\<open>status\<close> without testing that they are
  strings, as it does test for \<^verbatim>\<open>decision_owner\<close>. For \<^verbatim>\<open>type: 123\<close>, and for a
  \<^verbatim>\<open>status\<close> that is a list, it raises \<^verbatim>\<open>AttributeError\<close>, and so does
  \<^verbatim>\<open>validate_file\<close> on a document with such a header.
\<close>

theorem validate_frontmatter_non_string_type:
  "validate_frontmatter ext (YDict [(YStr ''type'', YInt 123)]) self = Inl AttributeError \<and>
   validate_frontmatter ext
     (YDict [(YStr ''type'', YStr ''ADR''), (YStr ''status'', YList [YStr ''accepted''])]) self =
     Inl AttributeError \<and>
   validate_file sample_ext sample_validator ''a.md'' (Inr ''---\<newline>type: 123\<newline>---\<newline>'') =
     Inl AttributeError"
proof (intro conjI)
  show "validate_frontmatter ext (YDict [(YStr ''type'', YInt 123)]) self = Inl AttributeError"
    by (simp add: validate_frontmatter_def check_type_def lookup_dict and_then_def)
  show "validate_frontmatter ext
     (YDict [(YStr ''type'', YStr ''ADR''), (YStr ''status'', YList [YStr ''accepted''])]) self =
     Inl AttributeError"
  proof -
    have "upper ''ADR'' \<in> set (map fst TDR_TYPES)" by code_simp
    then show ?thesis
      by (simp add: validate_frontmatter_def check_type_def check_status_def lookup_dict
          and_then_def)
  qed
  have "parse_frontmatter sample_ext ''---\<newline>type: 123\<newline>---\<newline>''
          (sample_validator\<lparr>errors := [], warnings := []\<rparr>) =
        Inr ((YDict [(YStr ''type'', YInt 123)], []), sample_validator\<lparr>errors := [], warnings := []\<rparr>)"
    by (simp add: parse_frontmatter_def startswith_def py_find_def slice_def sample_ext_def
        sample_header_def)
  then show "validate_file sample_ext sample_validator ''a.md'' (Inr ''---\<newline>type: 123\<newline>---\<newline>'') =
     Inl AttributeError"
    by (simp add: validate_file_def validate_frontmatter_def check_type_def lookup_dict and_then_def)
qed

subsection \<open>Section validation\<close>

lemma check_required_sections_effect:
  "check_required_sections req secs self =
     self\<lparr>errors := errors self @
       concat (map (\<lambda>r. case map_of secs r of
                            None \<Rightarrow> [''Missing required section: '' @ r]
                          | Some body \<Rightarrow>
                              if strip body = [] then [''Required section is empty: '' @ r]
                              else []) req)\<rparr>"
proof (induction req arbitrary: self)
  case Nil
  then show ?case by simp
next
  case (Cons r req)
  show ?case
    by (simp add: Cons.IH add_error_def split: option.splits)
qed

lemma check_unknown_sections_errors:
  "errors (check_unknown_sections tdr_type known names self) = errors self"
  by (induction names arbitrary: self) (simp_all add: add_warning_def)

lemma count_missing:
  "count_list
     (concat (map (\<lambda>r. case map_of secs r of
                          None \<Rightarrow> [''Missing required section: '' @ r]
                        | Some body \<Rightarrow>
                            if strip body = [] then [''Required section is empty: '' @ r]
                            else []) req))
     (''Missing required section: '' @ name) =
   (if map_of secs name = None then count_list req name else 0)"
  by (induction req) (auto split: option.splits)

lemma count_empty:
  "count_list
     (concat (map (\<lambda>r. case map_of secs r of
                          None \<Rightarrow> [''Missing required section: '' @ r]
                        | Some body \<Rightarrow>
                            if strip body = [] then [''Required section is empty: '' @ r]
                            else []) req))
     (''Required section is empty: '' @ name) =
   (case map_of secs name of
      None \<Rightarrow> 0
    | Some body \<Rightarrow> if strip body = [] then count_list req name else 0)"
  by (induction req) (auto split: option.splits)

lemma count_list_distinct:
  "distinct xs \<Longrightarrow> x \<in> set xs \<Longrightarrow> count_list xs x = 1"
  by (induction xs) auto

lemma required_sections_distinct:
  "map_of TDR_TYPES code = Some config \<Longrightarrow> distinct (required_sections config)"
  by (auto simp: TDR_TYPES_def split: if_splits)

text \<open>
  Claim C7. For a declared type whose upper-case form is in the registry, the section
  validator returns, and the errors it appends hold, for every name of the type's
  required list: exactly one ``missing required section'' error naming it and no
  ``required section is empty'' error when the name is no key of the section map;
  exactly one ``required section is empty'' error naming it and no ``missing'' error
  when the name is a key whose stripped content is empty.
\<close>

theorem validate_sections_required:
  assumes "map_of TDR_TYPES (upper t) = Some config"
    and "name \<in> set (required_sections config)"
  shows "\<exists>self' new.
     validate_sections (YStr t) secs self = Inr self' \<and>
     errors self' = errors self @ new \<and>
     (map_of secs name = None \<longrightarrow>
        count_list new (''Missing required section: '' @ name) = 1 \<and>
        count_list new (''Required section is empty: '' @ name) = 0) \<and>
     (\<forall>body. map_of secs name = Some body \<and> strip body = [] \<longrightarrow>
        count_list new (''Required section is empty: '' @ name) = 1 \<and>
        count_list new (''Missing required section: '' @ name) = 0)"
proof -
  let ?new = "concat (map (\<lambda>r. case map_of secs r of
                          None \<Rightarrow> [''Missing required section: '' @ r]
                        | Some body \<Rightarrow>
                            if strip body = [] then [''Required section is empty: '' @ r]
                            else []) (required_sections config))"
  let ?self1 = "check_required_sections (required_sections config) secs self"
  let ?self' = "if strict_mode ?self1
                then check_unknown_sections (upper t)
                       (required_sections config @ optional_sections config) (map fst secs) ?self1
                else ?self1"
  have v: "validate_sections (YStr t) secs self = Inr ?self'"
    using assms(1) by (simp add: validate_sections_def Let_def)
  have e1: "errors ?self1 = errors self @ ?new"
    by (subst check_required_sections_effect) simp
  have e: "errors ?self' = errors self @ ?new"
    using e1 by (simp add: check_unknown_sections_errors)
  have one: "count_list (required_sections config) name = 1"
    using required_sections_distinct [OF assms(1)] assms(2) by (rule count_list_distinct)
  have m: "map_of secs name = None \<longrightarrow>
        count_list ?new (''Missing required section: '' @ name) = 1 \<and>
        count_list ?new (''Required section is empty: '' @ name) = 0"
    by (simp only: count_missing count_empty one) simp
  have b: "\<forall>body. map_of secs name = Some body \<and> strip body = [] \<longrightarrow>
        count_list ?new (''Required section is empty: '' @ name) = 1 \<and>
        count_list ?new (''Missing required section: '' @ name) = 0"
    by (simp only: count_missing count_empty one) simp
  show ?thesis
  proof (intro exI conjI)
    show "validate_sections (YStr t) secs self = Inr ?self'" by (rule v)
    show "errors ?self' = errors self @ ?new" by (rule e)
    show "map_of secs name = None \<longrightarrow>
        count_list ?new (''Missing required section: '' @ name) = 1 \<and>
        count_list ?new (''Required section is empty: '' @ name) = 0" by (rule m)
    show "\<forall>body. map_of secs name = Some body \<and> strip body = [] \<longrightarrow>
        count_list ?new (''Required section is empty: '' @ name) = 1 \<and>
        count_list ?new (''Missing required section: '' @ name) = 0" by (rule b)
  qed
qed

text \<open>A memo with no Rationale section and a Decision section of one blank.\<close>

theorem validate_sections_required_witness:
  "map_of TDR_TYPES (upper ''tdm'') =
     Some \<lparr>type_name = ''Technical Decision Memo'',
           required_sections = [''Context'', ''Decision'', ''Rationale''],
           optional_sections = [''Implementation'', ''Consequences'', ''Next Steps'',
             ''Follow-up Required'', ''Related Work'']\<rparr> \<and>
   map_of [(''Context'', ''c''), (''Decision'', '' '')] ''Rationale'' = None \<and>
   (\<exists>self' new.
      validate_sections (YStr ''tdm'') [(''Context'', ''c''), (''Decision'', '' '')] sample_validator =
        Inr self' \<and>
      errors self' = errors sample_validator @ new \<and>
      count_list new (''Missing required section: '' @ ''Rationale'') = 1 \<and>
      count_list new (''Required section is empty: '' @ ''Rationale'') = 0) \<and>
   map_of [(''Context'', ''c''), (''Decision'', '' '')] ''Decision'' = Some '' '' \<and>
   strip '' '' = [] \<and>
   (\<exists>self' new.
      validate_sections (YStr ''tdm'') [(''Context'', ''c''), (''Decision'', '' '')] sample_validator =
        Inr self' \<and>
      errors self' = errors sample_validator @ new \<and>
      count_list new (''Required section is empty: '' @ ''Decision'') = 1 \<and>
      count_list new (''Missing required section: '' @ ''Decision'') = 0)"
proof -
  let ?cfg = "\<lparr>type_name = ''Technical Decision Memo'',
           required_sections = [''Context'', ''Decision'', ''Rationale''],
           optional_sections = [''Implementation'', ''Consequences'', ''Next Steps'',
             ''Follow-up Required'', ''Related Work'']\<rparr>"
  let ?secs = "[(''Context'', ''c''), (''Decision'', '' '')]"
  have h1: "map_of TDR_TYPES (upper ''tdm'') = Some ?cfg"
    by code_simp
  have h2: "''Rationale'' \<in> set (required_sections ?cfg)" by simp
  have h3: "''Decision'' \<in> set (required_sections ?cfg)" by simp
  have h4: "map_of ?secs ''Rationale'' = None" by simp
  have h5: "map_of ?secs ''Decision'' = Some '' ''" by simp
  have h6: "strip '' '' = []" by (simp add: strip_def is_space_def)
  from validate_sections_required [OF h1 h2, of ?secs sample_validator] h4
  have c1: "\<exists>self' new.
      validate_sections (YStr ''tdm'') ?secs sample_validator = Inr self' \<and>
      errors self' = errors sample_validator @ new \<and>
      count_list new (''Missing required section: '' @ ''Rationale'') = 1 \<and>
      count_list new (''Required section is empty: '' @ ''Rationale'') = 0"
    by blast
  from validate_sections_required [OF h1 h3, of ?secs sample_validator] h5 h6
  have c2: "\<exists>self' new.
      validate_sections (YStr ''tdm'') ?secs sample_validator = Inr self' \<and>
      errors self' = errors sample_validator @ new \<and>
      count_list new (''Required section is empty: '' @ ''Decision'') = 1 \<and>
      count_list new (''Missing required section: '' @ ''Decision'') = 0"
    by blast
  from h1 h4 c1 h5 h6 c2 show ?thesis by (intro conjI)
qed

subsection \<open>Section segmentation: the last heading wins\<close>

lemma parse_lines_append:
  "parse_lines (xs @ ys) secs cur cc =
     (case parse_lines xs secs cur cc of (secs', cur', cc') \<Rightarrow> parse_lines ys secs' cur' cc')"
  by (induction xs arbitrary: secs cur cc) (simp_all split: option.splits)

lemma parse_lines_body:
  "list_all (\<lambda>l. header_match l = None) body \<Longrightarrow> collecting cur \<Longrightarrow>
   parse_lines body secs cur cc = (secs, cur, cc @ body)"
  by (induction body arbitrary: cc) simp_all

lemma map_of_save_section_other:
  "cur \<noteq> Some h \<Longrightarrow> map_of (save_section secs cur cc) h = map_of secs h"
  by (auto simp: save_section_def update_conv' split: option.splits)

lemma map_of_save_section_same:
  "h \<noteq> [] \<Longrightarrow> map_of (save_section secs (Some h) cc) h = Some (strip (join_nl cc))"
  by (simp add: save_section_def update_conv')

lemma parse_lines_keeps:
  "list_all (\<lambda>l. map_option strip (header_match l) \<noteq> Some h) ls \<Longrightarrow> cur \<noteq> Some h \<Longrightarrow>
   (case parse_lines ls secs cur cc of (secs', cur', cc') \<Rightarrow>
      map_of (save_section secs' cur' cc') h) = map_of secs h"
proof (induction ls arbitrary: secs cur cc)
  case Nil
  then show ?case by (simp add: map_of_save_section_other)
next
  case (Cons l ls)
  show ?case
  proof (cases "header_match l")
    case None
    with Cons.prems Cons.IH [of cur secs] show ?thesis by simp
  next
    case (Some g)
    with Cons.prems have ne: "Some (strip g) \<noteq> Some h" by simp
    from Cons.prems have rest: "list_all (\<lambda>l. map_option strip (header_match l) \<noteq> Some h) ls"
      by simp
    from Cons.IH [OF rest ne, of "save_section secs cur cc" "[]"] Some Cons.prems(2)
    show ?thesis by (simp add: map_of_save_section_other)
  qed
qed

lemma parse_lines_last_heading:
  assumes h: "map_option strip (header_match l) = Some h" "h \<noteq> []"
    and body: "list_all (\<lambda>l. header_match l = None) body"
    and nxt: "case rest of [] \<Rightarrow> True | r # rs \<Rightarrow> header_match r \<noteq> None"
    and rest: "list_all (\<lambda>l. map_option strip (header_match l) \<noteq> Some h) rest"
  shows "(case parse_lines ([l] @ body @ rest) secs cur cc of (secs', cur', cc') \<Rightarrow>
            map_of (save_section secs' cur' cc') h) = Some (strip (join_nl body))"
proof -
  from h(1) obtain g where g: "header_match l = Some g" "strip g = h" by auto
  let ?s1 = "save_section secs cur cc"
  have col: "collecting (Some h)" using h(2) by (simp add: collecting_def)
  have step: "parse_lines ([l] @ body @ rest) secs cur cc = parse_lines rest ?s1 (Some h) body"
    using g parse_lines_body [OF body col, of ?s1 "[]"]
    by (simp add: parse_lines_append)
  show ?thesis
  proof (cases rest)
    case Nil
    with step h(2) show ?thesis by (simp add: map_of_save_section_same)
  next
    case (Cons r rs)
    with nxt obtain gr where gr: "header_match r = Some gr" by auto
    from rest Cons gr have ne: "Some (strip gr) \<noteq> Some h"
      and rs: "list_all (\<lambda>l. map_option strip (header_match l) \<noteq> Some h) rs" by simp_all
    let ?s2 = "save_section ?s1 (Some h) body"
    from parse_lines_keeps [OF rs ne, of ?s2 "[]"]
    have "(case parse_lines rs ?s2 (Some (strip gr)) [] of (secs', cur', cc') \<Rightarrow>
            map_of (save_section secs' cur' cc') h) = map_of ?s2 h" .
    with step Cons gr h(2) show ?thesis by (simp add: map_of_save_section_same)
  qed
qed

lemma save_section_no_blank_key:
  "map_of secs [] = None \<Longrightarrow> map_of (save_section secs cur cc) [] = None"
  by (auto simp: save_section_def update_conv' split: option.splits)

lemma parse_lines_no_blank_key:
  "map_of secs [] = None \<Longrightarrow>
   (case parse_lines ls secs cur cc of (secs', cur', cc') \<Rightarrow>
      map_of (save_section secs' cur' cc') []) = None"
proof (induction ls arbitrary: secs cur cc)
  case Nil
  then show ?case by (simp add: save_section_no_blank_key)
next
  case (Cons l ls)
  show ?case
  proof (cases "header_match l")
    case None
    with Cons.IH [OF Cons.prems] show ?thesis by simp
  next
    case (Some g)
    from Cons.prems have "map_of (save_section secs cur cc) [] = None"
      by (rule save_section_no_blank_key)
    from Cons.IH [OF this] Some show ?thesis by simp
  qed
qed

lemma parse_sections_no_blank_key:
  "map_of (fst (parse_sections content self)) [] = None"
proof -
  obtain s1 c1 cc1 where q: "parse_lines (split_nl content) [] None [] = (s1, c1, cc1)"
    by (cases "parse_lines (split_nl content) [] None []") auto
  have "map_of ([] :: section_map) [] = None" by simp
  from parse_lines_no_blank_key [OF this, of "split_nl content" None "[]"]
  have "map_of (save_section s1 c1 cc1) [] = None" by (simp only: q prod.case)
  then show ?thesis by (simp add: parse_sections_def q)
qed

text \<open>
  Claim C6, as amended. Let a line of the body be a heading whose stripped text \<open>h\<close> is
  not empty, followed by lines that are no headings up to the next heading or the end,
  and let no later heading have the text \<open>h\<close>. Whatever stands before that line,
  earlier headings of the same text among it, the section map holds for \<open>h\<close> the
  stripped lines after this last occurrence, and the segmenter leaves both accumulators
  of the validator as they were. And the section map of no text has the empty text
  as a key: a heading whose stripped text is empty is never entered.
\<close>

theorem parse_sections_last_wins:
  assumes "split_nl content = pre @ [l] @ body @ rest"
    and "map_option strip (header_match l) = Some h" and "h \<noteq> []"
    and "list_all (\<lambda>l. header_match l = None) body"
    and "case rest of [] \<Rightarrow> True | r # rs \<Rightarrow> header_match r \<noteq> None"
    and "list_all (\<lambda>l. map_option strip (header_match l) \<noteq> Some h) rest"
  shows "map_of (fst (parse_sections content self)) h = Some (strip (join_nl body)) \<and>
         snd (parse_sections content self) = self \<and>
         map_of (fst (parse_sections any_content self)) [] = None"
proof -
  obtain s0 c0 cc0 where p: "parse_lines pre [] None [] = (s0, c0, cc0)"
    by (cases "parse_lines pre [] None []") auto
  obtain s1 c1 cc1 where q: "parse_lines ([l] @ body @ rest) s0 c0 cc0 = (s1, c1, cc1)"
    by (cases "parse_lines ([l] @ body @ rest) s0 c0 cc0") auto
  have "parse_lines (split_nl content) [] None [] = parse_lines ([l] @ body @ rest) s0 c0 cc0"
    by (simp only: assms(1) parse_lines_append [of pre] p prod.case)
  then have r: "parse_sections content self = (save_section s1 c1 cc1, self)"
    by (simp only: parse_sections_def q prod.case)
  from parse_lines_last_heading [OF assms(2-6), of s0 c0 cc0]
  have "map_of (save_section s1 c1 cc1) h = Some (strip (join_nl body))"
    by (simp only: q prod.case)
  with r show ?thesis by (simp add: parse_sections_no_blank_key)
qed

text \<open>The equations that evaluate the segmenter on a text.\<close>

lemmas segment_eval =
  header_match_def try_hashes_def after_hashes_def is_space_def strip_def
  save_section_def collecting_def parse_sections_def eval_nat_numeral

text \<open>
  The claim as stated fails for a heading whose text is blank: the line of two hashes
  and two blanks matches the pattern, its stripped text is empty, and the guard
  \<^verbatim>\<open>if current_section:\<close> then keeps the section out of the map. Two such headings
  leave the map empty.
\<close>

theorem parse_sections_blank_heading:
  "split_nl ''##  \<newline>x\<newline>##  \<newline>y'' = [''##  '', ''x'', ''##  '', ''y''] \<and>
   map_option strip (header_match ''##  '') = Some [] \<and>
   parse_sections ''##  \<newline>x\<newline>##  \<newline>y'' sample_validator = ([], sample_validator)"
  by (simp add: segment_eval)

text \<open>Two headings \<^verbatim>\<open>A\<close>, the later one with the content \<^verbatim>\<open>new\<close>.\<close>

theorem parse_sections_last_wins_witness:
  "split_nl ''## A\<newline>old\<newline>## A\<newline>new\<newline>## B\<newline>b'' =
     [''## A'', ''old''] @ [''## A''] @ [''new''] @ [''## B'', ''b''] \<and>
   map_option strip (header_match ''## A'') = Some ''A'' \<and>
   ''A'' \<noteq> [] \<and>
   list_all (\<lambda>l. header_match l = None) [''new''] \<and>
   header_match ''## B'' \<noteq> None \<and>
   list_all (\<lambda>l. map_option strip (header_match l) \<noteq> Some ''A'') [''## B'', ''b''] \<and>
   map_of (fst (parse_sections ''## A\<newline>old\<newline>## A\<newline>new\<newline>## B\<newline>b'' sample_validator)) ''A'' =
     Some (strip (join_nl [''new''])) \<and>
   snd (parse_sections ''## A\<newline>old\<newline>## A\<newline>new\<newline>## B\<newline>b'' sample_validator) =
     sample_validator \<and>
   map_of (fst (parse_sections ''##  \<newline>x\<newline>##  \<newline>y'' sample_validator)) [] = None"
proof -
  have h1: "split_nl ''## A\<newline>old\<newline>## A\<newline>new\<newline>## B\<newline>b'' =
     [''## A'', ''old''] @ [''## A''] @ [''new''] @ [''## B'', ''b'']" by simp
  have h2: "map_option strip (header_match ''## A'') = Some ''A''" by (simp add: segment_eval)
  have h3: "''A'' \<noteq> []" by simp
  have h4: "list_all (\<lambda>l. header_match l = None) [''new'']" by (simp add: segment_eval)
  have h5: "header_match ''## B'' \<noteq> None" by (simp add: segment_eval)
  then have h5': "case [''## B'', ''b''] of [] \<Rightarrow> True | r # rs \<Rightarrow> header_match r \<noteq> None"
    by simp
  have h6: "list_all (\<lambda>l. map_option strip (header_match l) \<noteq> Some ''A'') [''## B'', ''b'']"
    by (simp add: segment_eval)
  from parse_sections_last_wins [OF h1 h2 h3 h4 h5' h6, of sample_validator
      "''##  \<newline>x\<newline>##  \<newline>y''"] h1 h2 h3 h4 h5 h6
  show ?thesis by (intro conjI) simp_all
qed

subsection \<open>Cross-reference scanning\<close>

lemma is_upper_word: "is_upper c \<Longrightarrow> is_word c"
  by (simp add: is_upper_def is_word_def)

lemma is_digit_word: "is_digit c \<Longrightarrow> is_word c"
  by (simp add: is_digit_def is_word_def)

lemma is_upper_not_digit: "is_upper c \<Longrightarrow> \<not> is_digit c"
  by (auto simp: is_upper_def is_digit_def ascii_uppercase_def digits_def)

lemma check_references_effect:
  "check_references refs self =
     self\<lparr>warnings := warnings self @
       map (\<lambda>(ref_type, ref_id). ''Reference to unknown TDR type: '' @ ref_type @ ''-'' @ ref_id)
         (filter (\<lambda>(ref_type, ref_id). ref_type \<notin> set (map fst TDR_TYPES)) refs)\<rparr>"
proof (induction refs arbitrary: self)
  case Nil
  then show ?case by simp
next
  case (Cons r refs)
  obtain t d where r: "r = (t, d)" by (cases r)
  show ?case unfolding r by (simp add: Cons.IH add_warning_def)
qed

lemma last_dropWhile: "dropWhile P xs \<noteq> [] \<Longrightarrow> last (dropWhile P xs) = last xs"
  by (induction xs) (auto split: if_splits)

lemma match_ref_rest:
  assumes "match_ref before s = Some (t, d, r)"
  shows "r = dropWhile is_digit (drop 4 s)" "d = takeWhile is_digit (drop 4 s)" "d \<noteq> []"
  using assms by (auto simp: match_ref_def Let_def split: if_splits)

lemma match_ref_rest_last:
  assumes "match_ref before pre = Some (t, d, r)" "\<not> is_word (last pre)"
  shows "r \<noteq> []" "last r = last pre"
proof -
  note m = match_ref_rest [OF assms(1)]
  from m(2,3) have d4: "drop 4 pre \<noteq> []" by auto
  then have l4: "last (drop 4 pre) = last pre" by simp
  show "r \<noteq> []"
  proof
    assume "r = []"
    with m(1) have "dropWhile is_digit (drop 4 pre) = []" by simp
    then have "\<forall>x \<in> set (drop 4 pre). is_digit x" by (simp only: dropWhile_eq_Nil_conv)
    with d4 have "is_digit (last (drop 4 pre))" using last_in_set by blast
    with l4 assms(2) is_digit_word show False by auto
  qed
  with m(1) have "last r = last (drop 4 pre)" by (simp add: last_dropWhile)
  with l4 show "last r = last pre" by simp
qed

lemma match_ref_append:
  assumes "pre \<noteq> []" "\<not> is_word (last pre)" "tok \<noteq> []" "\<not> is_digit (hd tok)"
  shows "match_ref before (pre @ tok) =
           map_option (\<lambda>(t, d, r). (t, d, r @ tok)) (match_ref before pre)"
proof (cases "4 < length pre")
  case True
  then have d4: "drop 4 pre \<noteq> []" by simp
  then have "last (drop 4 pre) = last pre" by simp
  with d4 have mem: "last pre \<in> set (drop 4 pre)" using last_in_set by metis
  from assms(2) is_digit_word have nd: "\<not> is_digit (last pre)" by blast
  have tw: "takeWhile is_digit (drop 4 pre @ tok) = takeWhile is_digit (drop 4 pre)"
    using mem nd by (rule takeWhile_append1)
  have dw: "dropWhile is_digit (drop 4 pre @ tok) = dropWhile is_digit (drop 4 pre) @ tok"
    using mem nd by (rule dropWhile_append1)
  have ne: "dropWhile is_digit (drop 4 pre) \<noteq> []"
    using mem nd by (auto simp: dropWhile_eq_Nil_conv)
  then have fc: "first_char (dropWhile is_digit (drop 4 pre) @ tok) =
      first_char (dropWhile is_digit (drop 4 pre))"
    by (cases "dropWhile is_digit (drop 4 pre)") (simp_all add: first_char_def)
  from True have parts: "drop 4 (pre @ tok) = drop 4 pre @ tok" "take 3 (pre @ tok) = take 3 pre"
    "take 1 (drop 3 (pre @ tok)) = take 1 (drop 3 pre)"
    by simp_all
  from assms(1) have f0: "first_char (pre @ tok) = first_char pre"
    by (cases pre) (simp_all add: first_char_def)
  show ?thesis
    unfolding match_ref_def Let_def parts tw dw fc f0 by simp
next
  case False
  then have "drop 4 pre = []" by simp
  then have none: "match_ref before pre = None" by (simp add: match_ref_def)
  have "match_ref before (pre @ tok) = None"
  proof (cases "length pre = 4")
    case True
    then have "drop 4 (pre @ tok) = tok" by simp
    moreover from assms(3,4) have "takeWhile is_digit tok = []"
      by (cases tok) simp_all
    ultimately show ?thesis by (simp add: match_ref_def)
  next
    case False
    with \<open>\<not> 4 < length pre\<close> have le: "length pre \<le> 3" by simp
    then have "take 3 (pre @ tok) = pre @ take (3 - length pre) tok" by simp
    with assms(1) have "last pre \<in> set (take 3 (pre @ tok))" by simp
    moreover from assms(2) is_upper_word have "\<not> is_upper (last pre)" by blast
    ultimately have "\<not> list_all is_upper (take 3 (pre @ tok))"
      by (auto simp: list_all_iff)
    then show ?thesis by (simp add: match_ref_def Let_def del: take_append drop_append)
  qed
  with none show ?thesis by simp
qed

lemma match_ref_token:
  assumes "length t = 3" "list_all is_upper t" "d \<noteq> []" "list_all is_digit d"
    and "case before of None \<Rightarrow> True | Some c \<Rightarrow> \<not> is_word c"
    and "case post of [] \<Rightarrow> True | c # cs \<Rightarrow> \<not> is_word c"
  shows "match_ref before (t @ ''-'' @ d @ post) = Some (t, d, post)"
proof -
  from assms(1) obtain a b c where t: "t = [a, b, c]"
    by (cases t; cases "tl t"; cases "tl (tl t)") auto
  with assms(2) have up: "is_upper a" "is_upper b" "is_upper c" by simp_all
  from assms(6) is_digit_word have pd: "post = [] \<or> \<not> is_digit (hd post)"
    by (cases post) auto
  from assms(4) have tw: "takeWhile is_digit (d @ post) = d"
    using pd by (cases post) (auto simp: list_all_iff takeWhile_append2 intro: takeWhile_eq_all_conv [THEN iffD2])
  from assms(4) have dw: "dropWhile is_digit (d @ post) = post"
    using pd by (cases post) (auto simp: list_all_iff dropWhile_append2)
  from assms(3,4) have ld: "is_word (last d)"
    using is_digit_word last_in_set by (auto simp: list_all_iff)
  from assms(5) up(1) is_upper_word have b1: "word_boundary before (first_char (t @ ''-'' @ d @ post))"
    by (auto simp: word_boundary_def first_char_def t split: option.splits)
  from assms(6) ld have b2: "word_boundary (Some (last d)) (first_char post)"
    by (auto simp: word_boundary_def first_char_def split: list.splits)
  show ?thesis
    using up b1 b2 assms(3) by (simp add: match_ref_def t tw dw)
qed

lemma findall_refs_append:
  assumes "tok \<noteq> []" "\<not> is_digit (hd tok)"
  shows "pre = [] \<or> \<not> is_word (last pre) \<Longrightarrow>
     findall_refs before (pre @ tok) =
       findall_refs before pre @
       findall_refs (if pre = [] then before else Some (last pre)) tok"
proof (induction before pre rule: findall_refs.induct)
  case (1 before)
  show ?case by simp
next
  case (2 before c cs)
  from "2.prems" have nw: "\<not> is_word (last (c # cs))" by simp
  have M: "match_ref before ((c # cs) @ tok) =
      map_option (\<lambda>(t, d, r). (t, d, r @ tok)) (match_ref before (c # cs))"
    by (rule match_ref_append [OF _ nw assms]) simp
  have app: "(c # cs) @ tok = c # (cs @ tok)" by simp
  show ?case
  proof (cases "match_ref before (c # cs)")
    case None
    with M have N: "match_ref before (c # (cs @ tok)) = None" by simp
    from nw have p: "cs = [] \<or> \<not> is_word (last cs)" by (cases cs) simp_all
    have l: "(if cs = [] then Some c else Some (last cs)) = Some (last (c # cs))" by simp
    from "2.IH"(1) [OF None p]
    have "findall_refs (Some c) (cs @ tok) =
        findall_refs (Some c) cs @ findall_refs (Some (last (c # cs))) tok"
      by (simp only: l)
    with None N show ?thesis by (simp del: last.simps)
  next
    case (Some x)
    obtain t d r where x: "x = (t, d, r)" by (cases x)
    from Some x have m: "match_ref before (c # cs) = Some (t, d, r)" by simp
    from match_ref_rest_last [OF m nw] have r: "r \<noteq> []" "last r = last (c # cs)" .
    from M m have N: "match_ref before (c # (cs @ tok)) = Some (t, d, r @ tok)" by simp
    from r nw have p: "r = [] \<or> \<not> is_word (last r)" by simp
    from "2.IH"(2) [OF Some x [symmetric] refl p] r
    have "findall_refs (Some (last d)) (r @ tok) =
        findall_refs (Some (last d)) r @ findall_refs (Some (last (c # cs))) tok"
      by simp
    with m N show ?thesis by (simp del: last.simps)
  qed
qed

text \<open>
  Claim C8. The scanner leaves the error list as it was, and the warnings it appends
  are, in the order of the matches of the pattern, one warning naming the reference
  for each match whose three letters are no key of the registry, and nothing for a
  match whose letters are one. Every token of three upper-case letters, a hyphen and
  digits that stands between word boundaries is one such match: the matches of the text
  are those before it, the token, and those after it, so the token adds exactly one
  warning when its prefix is unknown and none when it is known.
\<close>

theorem validate_cross_references_warnings:
  "errors (validate_cross_references content self) = errors self \<and>
   warnings (validate_cross_references content self) =
     warnings self @
     map (\<lambda>(ref_type, ref_id). ''Reference to unknown TDR type: '' @ ref_type @ ''-'' @ ref_id)
       (filter (\<lambda>(ref_type, ref_id). ref_type \<notin> set (map fst TDR_TYPES))
          (findall_refs None content)) \<and>
   (length t = 3 \<and> list_all is_upper t \<and> d \<noteq> [] \<and> list_all is_digit d \<and>
    (pre = [] \<or> \<not> is_word (last pre)) \<and> (post = [] \<or> \<not> is_word (hd post)) \<longrightarrow>
      findall_refs None (pre @ t @ ''-'' @ d @ post) =
        findall_refs None pre @ [(t, d)] @ findall_refs (Some (last d)) post \<and>
      warnings (validate_cross_references (pre @ t @ ''-'' @ d @ post) self) =
        warnings (validate_cross_references pre self) @
        (if t \<in> set (map fst TDR_TYPES) then []
         else [''Reference to unknown TDR type: '' @ t @ ''-'' @ d]) @
        map (\<lambda>(ref_type, ref_id). ''Reference to unknown TDR type: '' @ ref_type @ ''-'' @ ref_id)
          (filter (\<lambda>(ref_type, ref_id). ref_type \<notin> set (map fst TDR_TYPES))
             (findall_refs (Some (last d)) post)))"
proof (intro conjI impI)
  show "errors (validate_cross_references content self) = errors self"
    by (simp add: validate_cross_references_def check_references_effect)
  show "warnings (validate_cross_references content self) =
     warnings self @
     map (\<lambda>(ref_type, ref_id). ''Reference to unknown TDR type: '' @ ref_type @ ''-'' @ ref_id)
       (filter (\<lambda>(ref_type, ref_id). ref_type \<notin> set (map fst TDR_TYPES))
          (findall_refs None content))"
    by (simp add: validate_cross_references_def check_references_effect)
next
  assume a: "length t = 3 \<and> list_all is_upper t \<and> d \<noteq> [] \<and> list_all is_digit d \<and>
    (pre = [] \<or> \<not> is_word (last pre)) \<and> (post = [] \<or> \<not> is_word (hd post))"
  let ?tok = "t @ ''-'' @ d @ post"
  let ?before = "if pre = [] then None else Some (last pre)"
  from a obtain c cs where tok: "?tok = c # cs" and c: "is_upper c"
    by (cases t) auto
  from c have nd: "\<not> is_digit (hd ?tok)" unfolding tok by (simp add: is_upper_not_digit)
  have ne: "?tok \<noteq> []" unfolding tok by simp
  from a have pre: "pre = [] \<or> \<not> is_word (last pre)" by simp
  from a have b: "case ?before of None \<Rightarrow> True | Some c \<Rightarrow> \<not> is_word c" by auto
  from a have p: "case post of [] \<Rightarrow> True | c # cs \<Rightarrow> \<not> is_word c"
    by (cases post) auto
  from a have "match_ref ?before ?tok = Some (t, d, post)"
    by (intro match_ref_token b p) simp_all
  then have "findall_refs ?before ?tok = (t, d) # findall_refs (Some (last d)) post"
    unfolding tok by simp
  with findall_refs_append [OF ne nd pre, of None]
  show f: "findall_refs None (pre @ t @ ''-'' @ d @ post) =
        findall_refs None pre @ [(t, d)] @ findall_refs (Some (last d)) post"
    by simp
  show "warnings (validate_cross_references (pre @ t @ ''-'' @ d @ post) self) =
        warnings (validate_cross_references pre self) @
        (if t \<in> set (map fst TDR_TYPES) then []
         else [''Reference to unknown TDR type: '' @ t @ ''-'' @ d]) @
        map (\<lambda>(ref_type, ref_id). ''Reference to unknown TDR type: '' @ ref_type @ ''-'' @ ref_id)
          (filter (\<lambda>(ref_type, ref_id). ref_type \<notin> set (map fst TDR_TYPES))
             (findall_refs (Some (last d)) post))"
    unfolding validate_cross_references_def check_references_effect f by simp
qed

text \<open>A known and an unknown reference in one sentence.\<close>

lemma sample_scan:
  "findall_refs None ''see ADR-007 and XYZ-007.'' = [(''ADR'', ''007''), (''XYZ'', ''007'')]"
  by code_simp

theorem validate_cross_references_warnings_witness:
  "length ''XYZ'' = 3 \<and> list_all is_upper ''XYZ'' \<and> ''007'' \<noteq> [] \<and>
   list_all is_digit ''007'' \<and> \<not> is_word (last ''see ADR-007 and '') \<and>
   \<not> is_word (hd ''.'') \<and>
   findall_refs None (''see ADR-007 and '' @ ''XYZ'' @ ''-'' @ ''007'' @ ''.'') =
     findall_refs None ''see ADR-007 and '' @ [(''XYZ'', ''007'')] @
     findall_refs (Some (last ''007'')) ''.'' \<and>
   findall_refs None ''see ADR-007 and '' = [(''ADR'', ''007'')] \<and>
   errors (validate_cross_references (''see ADR-007 and '' @ ''XYZ'' @ ''-'' @ ''007'' @ ''.'')
     sample_validator) = [] \<and>
   warnings (validate_cross_references (''see ADR-007 and '' @ ''XYZ'' @ ''-'' @ ''007'' @ ''.'')
     sample_validator) = [''Reference to unknown TDR type: XYZ-007'']"
proof -
  have h1: "length ''XYZ'' = 3" by simp
  have h2: "list_all is_upper ''XYZ''" by code_simp
  have h3: "''007'' \<noteq> []" by simp
  have h4: "list_all is_digit ''007''" by code_simp
  have h5: "\<not> is_word (last ''see ADR-007 and '')" by code_simp
  have h6: "\<not> is_word (hd ''.'')" by code_simp
  have s1: "findall_refs None ''see ADR-007 and '' = [(''ADR'', ''007'')]" by code_simp
  have s2: "findall_refs (Some (last ''007'')) ''.'' = []" by code_simp
  have k: "''XYZ'' \<notin> set (map fst TDR_TYPES)" "''ADR'' \<in> set (map fst TDR_TYPES)"
    by (simp_all add: TDR_TYPES_def)
  note t = validate_cross_references_warnings
    [where t = "''XYZ''" and d = "''007''" and pre = "''see ADR-007 and ''" and post = "''.''"
       and self = sample_validator
       and content = "''see ADR-007 and '' @ ''XYZ'' @ ''-'' @ ''007'' @ ''.''"]
  from t have e: "errors (validate_cross_references
      (''see ADR-007 and '' @ ''XYZ'' @ ''-'' @ ''007'' @ ''.'') sample_validator) = []"
    by (simp add: sample_validator_def)
  from t h1 h2 h3 h4 h5 h6
  have f: "findall_refs None (''see ADR-007 and '' @ ''XYZ'' @ ''-'' @ ''007'' @ ''.'') =
     findall_refs None ''see ADR-007 and '' @ [(''XYZ'', ''007'')] @
     findall_refs (Some (last ''007'')) ''.''"
    by blast
  from t have "warnings (validate_cross_references
      (''see ADR-007 and '' @ ''XYZ'' @ ''-'' @ ''007'' @ ''.'') sample_validator) =
     warnings sample_validator @
     map (\<lambda>(ref_type, ref_id). ''Reference to unknown TDR type: '' @ ref_type @ ''-'' @ ref_id)
       (filter (\<lambda>(ref_type, ref_id). ref_type \<notin> set (map fst TDR_TYPES))
          (findall_refs None (''see ADR-007 and '' @ ''XYZ'' @ ''-'' @ ''007'' @ ''.'')))"
    by blast
  then have w: "warnings (validate_cross_references
      (''see ADR-007 and '' @ ''XYZ'' @ ''-'' @ ''007'' @ ''.'') sample_validator) =
      [''Reference to unknown TDR type: XYZ-007'']"
    unfolding f s1 s2 using k by (simp add: sample_validator_def)
  from h1 h2 h3 h4 h5 h6 f s1 e w show ?thesis by (intro conjI)
qed

subsection \<open>Well-formed documents\<close>

lemma py_in_dict: "py_in k (YDict d) = Inr (map_of d (YStr k) \<noteq> None)"
  by (simp add: map_of_eq_None_iff)

lemma check_required_fields_present:
  "list_all (\<lambda>k. map_of d (YStr k) \<noteq> None) ks \<Longrightarrow>
   check_required_fields ks (YDict d) self = Inr self"
  by (induction ks) (simp_all add: py_in_dict del: py_in.simps)

lemma check_type_ok:
  assumes "map_of d (YStr ''type'') = Some (YStr t)" "map_of TDR_TYPES (upper t) = Some config"
  shows "check_type (YDict d) self = Inr self"
proof -
  from assms(2) have "upper t \<in> set (map fst TDR_TYPES)"
    by (metis map_of_eq_None_iff option.distinct(1) set_map)
  with assms(1) show ?thesis by (simp add: check_type_def lookup_dict)
qed

lemma check_status_ok:
  assumes "map_of d (YStr ''status'') = Some (YStr s)" "lower s \<in> set VALID_STATUSES"
  shows "check_status (YDict d) self = Inr self"
  using assms by (simp add: check_status_def lookup_dict)

lemma check_date_ok:
  assumes "map_of d (YStr ''date'') = Some dv" "fromisoformat ext (py_str ext dv)"
  shows "check_date ext (YDict d) self = Inr self"
  using assms by (simp add: check_date_def lookup_dict)

lemma check_decision_owner_ok:
  assumes "map_of d (YStr ''decision_owner'') = Some (YStr owner)" "strip owner \<noteq> []"
  shows "check_decision_owner (YDict d) self = Inr self"
  using assms by (simp add: check_decision_owner_def lookup_dict)

lemma check_optional_field_errors:
  assumes "field = ''tdr_id'' \<or> (\<forall>sign. map_of d (YStr field) \<noteq> Some (YFloat (Infinity sign)))"
  shows "\<exists>self'. check_optional_field field (YDict d) self = Inr self' \<and>
           errors self' = errors self"
proof (cases "map_of d (YStr field)")
  case None
  then show ?thesis by (simp add: check_optional_field_def lookup_dict)
next
  case (Some v)
  show ?thesis
  proof (cases "isinstance_int_str v \<or> field = ''tdr_id''")
    case True
    with Some show ?thesis by (auto simp: check_optional_field_def lookup_dict)
  next
    case False
    with assms Some have ninf: "\<forall>sign. v \<noteq> YFloat (Infinity sign)" by auto
    have "py_int v = Inr () \<or> py_int v = Inl ValueError \<or> py_int v = Inl TypeError"
    proof (cases v)
      case (YFloat f)
      with ninf show ?thesis by (cases f) auto
    qed auto
    with Some False show ?thesis
      by (auto simp: check_optional_field_def lookup_dict add_warning_def)
  qed
qed

lemma check_reviewers_errors:
  "\<exists>self'. check_reviewers (YDict d) self = Inr self' \<and> errors self' = errors self"
proof (cases "map_of d (YStr ''reviewers'')")
  case None
  then show ?thesis by (simp add: check_reviewers_def lookup_dict)
next
  case (Some v)
  then show ?thesis
    by (cases v) (simp_all add: check_reviewers_def lookup_dict add_warning_def)
qed

lemma validate_frontmatter_ok:
  assumes "map_of d (YStr ''type'') = Some (YStr t)" "map_of TDR_TYPES (upper t) = Some config"
    and "map_of d (YStr ''title'') \<noteq> None"
    and "map_of d (YStr ''status'') = Some (YStr s)" "lower s \<in> set VALID_STATUSES"
    and "map_of d (YStr ''date'') = Some dv" "fromisoformat ext (py_str ext dv)"
    and "map_of d (YStr ''decision_owner'') = Some (YStr owner)" "strip owner \<noteq> []"
    and "\<forall>sign. map_of d (YStr ''supersedes'') \<noteq> Some (YFloat (Infinity sign))"
  shows "\<exists>self'. validate_frontmatter ext (YDict d) self = Inr self' \<and>
           errors self' = errors self"
proof -
  have req: "check_required_fields [''type'', ''title'', ''status'', ''date'', ''decision_owner'']
      (YDict d) self = Inr self"
    using assms(1,3,4,6,8) by (intro check_required_fields_present) auto
  obtain s1 where s1: "check_optional_field ''tdr_id'' (YDict d) self = Inr s1"
    "errors s1 = errors self"
    using check_optional_field_errors [of "''tdr_id''" d self] by auto
  obtain s2 where s2: "check_optional_field ''supersedes'' (YDict d) s1 = Inr s2"
    "errors s2 = errors s1"
    using check_optional_field_errors [of "''supersedes''" d s1] assms(10) by blast
  obtain s3 where s3: "check_reviewers (YDict d) s2 = Inr s3" "errors s3 = errors s2"
    using check_reviewers_errors [of d s2] by auto
  have "validate_frontmatter ext (YDict d) self = Inr s3"
    unfolding validate_frontmatter_def
    by (simp only: req and_then_simps check_type_ok [OF assms(1,2)]
        check_status_ok [OF assms(4,5)] check_date_ok [OF assms(6,7)]
        check_decision_owner_ok [OF assms(8,9)] s1 s2 s3)
  with s1 s2 s3 show ?thesis by simp
qed

lemma parse_sections_self:
  "parse_sections content self = (fst (parse_sections content self0), self)"
  by (simp add: parse_sections_def split: prod.splits)

lemma validate_sections_ok:
  assumes "map_of TDR_TYPES (upper t) = Some config"
    and "list_all (\<lambda>name. case map_of secs name of None \<Rightarrow> False | Some c \<Rightarrow> strip c \<noteq> [])
           (required_sections config)"
  shows "\<exists>self'. validate_sections (YStr t) secs self = Inr self' \<and> errors self' = errors self"
proof -
  have "concat (map (\<lambda>r. case map_of secs r of
                          None \<Rightarrow> [''Missing required section: '' @ r]
                        | Some body \<Rightarrow>
                            if strip body = [] then [''Required section is empty: '' @ r]
                            else []) (required_sections config)) = []"
    using assms(2) by (induction "required_sections config") (auto simp: list_all_iff split: option.splits)
  then have "errors (check_required_sections (required_sections config) secs self) = errors self"
    by (simp add: check_required_sections_effect)
  with assms(1) show ?thesis
    by (simp add: validate_sections_def Let_def check_unknown_sections_errors)
qed

lemma validate_ai_context_ok:
  assumes "case map_of d (YStr ''ai-context'') of
             None \<Rightarrow> True | Some (YDict a) \<Rightarrow> True | Some other \<Rightarrow> False"
  shows "\<exists>self'. validate_ai_context (YDict d) self = Inr self' \<and> errors self' = errors self"
proof (cases "map_of d (YStr ''ai-context'')")
  case None
  then show ?thesis by (simp add: validate_ai_context_def lookup_dict)
next
  case (Some v)
  with assms obtain a where v: "v = YDict a" by (cases v) auto
  obtain ws where "check_complexity_level a (check_keywords a (check_summary a self)) =
      self\<lparr>warnings := warnings self @ ws\<rparr>"
    using ai_context_checks_frame by blast
  with Some v show ?thesis by (simp add: validate_ai_context_def lookup_dict)
qed

lemma validate_cross_references_errors:
  "errors (validate_cross_references content self) = errors self"
  by (simp add: validate_cross_references_def check_references_effect)

text \<open>
  Claim C1, as amended. Let the content be a delimited header and a body, the header
  decoded to a mapping in which \<^verbatim>\<open>type\<close> is a string whose upper-case form is one of
  the five codes, \<^verbatim>\<open>title\<close> is present, \<^verbatim>\<open>status\<close> is a string whose lower-case form is
  a valid status, \<^verbatim>\<open>date\<close> parses as an ISO date, and \<^verbatim>\<open>decision_owner\<close> is a string
  that is not blank; let every section required for the type be in the section map of
  the body with content that is not blank. If moreover \<^verbatim>\<open>ai-context\<close> is absent or a
  nested mapping, and \<^verbatim>\<open>supersedes\<close> is not an infinite float, then \<^verbatim>\<open>validate_file\<close>
  returns a result that is valid and has no error.
\<close>

theorem validate_file_well_formed:
  assumes "''---'' \<notin> set (tl (split_nl y))" and "safe_load ext y = Inr (YDict d)"
    and "map_of d (YStr ''type'') = Some (YStr t)" and "map_of TDR_TYPES (upper t) = Some config"
    and "map_of d (YStr ''title'') \<noteq> None"
    and "map_of d (YStr ''status'') = Some (YStr s)" and "lower s \<in> set VALID_STATUSES"
    and "map_of d (YStr ''date'') = Some dv" and "fromisoformat ext (py_str ext dv)"
    and "map_of d (YStr ''decision_owner'') = Some (YStr owner)" and "strip owner \<noteq> []"
    and "\<forall>sign. map_of d (YStr ''supersedes'') \<noteq> Some (YFloat (Infinity sign))"
    and "case map_of d (YStr ''ai-context'') of
           None \<Rightarrow> True | Some (YDict a) \<Rightarrow> True | Some other \<Rightarrow> False"
    and "list_all (\<lambda>name. case map_of (fst (parse_sections body self)) name of
                            None \<Rightarrow> False | Some c \<Rightarrow> strip c \<noteq> [])
           (required_sections config)"
  shows "\<exists>r. validate_file ext self file_path
              (Inr (''---\<newline>'' @ y @ ''\<newline>---\<newline>'' @ body)) = Inr r \<and>
             r_valid r \<and> r_errors r = []"
proof -
  let ?c = "''---\<newline>'' @ y @ ''\<newline>---\<newline>'' @ body"
  let ?self0 = "self\<lparr>errors := [], warnings := []\<rparr>"
  let ?secs = "fst (parse_sections body self)"
  have pf: "parse_frontmatter ext ?c ?self0 = Inr ((YDict d, body), ?self0)"
    using parse_frontmatter_closed [OF assms(1), of ext body ?self0] assms(2) by simp
  have tr: "truthy (YDict d)" using assms(3) by (cases d) simp_all
  obtain s2 where vf: "validate_frontmatter ext (YDict d) ?self0 = Inr s2"
    and e2: "errors s2 = []"
    using validate_frontmatter_ok [OF assms(3-12), of ?self0] by auto
  have ps: "parse_sections body s2 = (?secs, s2)" by (rule parse_sections_self)
  have lk: "lookup ''type'' (YDict d) = Inr (Some (YStr t))"
    using assms(3) by (simp add: lookup_dict)
  obtain s4 where vs: "validate_sections (YStr t) ?secs s2 = Inr s4"
    and e4: "errors s4 = []"
    using validate_sections_ok [OF assms(4) assms(14), of s2] e2 by auto
  let ?s4' = "validate_cross_references body s4"
  have e4': "errors ?s4' = []" using e4 by (simp add: validate_cross_references_errors)
  obtain s5 where va: "validate_ai_context (YDict d) ?s4' = Inr s5"
    and e5: "errors s5 = []"
    using validate_ai_context_ok [OF assms(13), of ?s4'] e4' by auto
  let ?r = "\<lparr>r_file = file_path, r_valid = True, r_errors = [],
             r_warnings = warnings s5,
             r_metadata = Some \<lparr>m_frontmatter = YDict d,
                                 m_section_count = length ?secs,
                                 m_sections = map fst ?secs,
                                 m_has_ai_context = (map_of d (YStr ''ai-context'') \<noteq> None)\<rparr>\<rparr>"
  have cr: "create_result s5 file_path (YDict d) ?secs = Inr ?r"
    unfolding create_result_def using tr e5 by (simp add: py_in_dict del: py_in.simps truthy.simps)
  have "validate_file ext self file_path (Inr ?c) = Inr ?r"
    unfolding validate_file_def Let_def
    by (simp only: sum.case pf and_then_simps prod.case tr not_True_eq_False if_False vf ps lk
        option.case vs va cr)
  then show ?thesis by simp
qed

text \<open>
  The claim as stated fails: the sample document, whose fields are valid and whose
  three required sections are present and not blank, with one more header line that
  gives \<^verbatim>\<open>ai-context\<close> a string, is not valid.
\<close>

theorem validate_file_ai_context_string_invalid:
  "fst (parse_sections sample_body sample_validator) =
     [(''Context'', ''c''), (''Decision'', ''d''), (''Rationale'', ''r'')] \<and>
   validate_file sample_ext sample_validator ''a.md''
     (Inr (''---\<newline>'' @ sample_header @ ''\<newline>ai-context: x'' @ ''\<newline>---\<newline>'' @ sample_body)) =
     Inr \<lparr>r_file = ''a.md'', r_valid = False,
          r_errors = [''ai-context must be a dictionary''],
          r_warnings = [],
          r_metadata = Some \<lparr>m_frontmatter =
              YDict [(YStr ''type'', YStr ''tdm''), (YStr ''title'', YStr ''T''),
                     (YStr ''status'', YStr ''Accepted''),
                     (YStr ''date'', YTimestamp ''2024-01-15''),
                     (YStr ''decision_owner'', YStr ''bob''),
                     (YStr ''ai-context'', YStr ''x'')],
            m_section_count = 3,
            m_sections = [''Context'', ''Decision'', ''Rationale''],
            m_has_ai_context = True\<rparr>\<rparr>"
  by code_simp

text \<open>The sample memo is valid.\<close>

theorem validate_file_well_formed_witness:
  "''---'' \<notin> set (tl (split_nl sample_header)) \<and>
   safe_load sample_ext sample_header =
     Inr (YDict [(YStr ''type'', YStr ''tdm''), (YStr ''title'', YStr ''T''),
                 (YStr ''status'', YStr ''Accepted''),
                 (YStr ''date'', YTimestamp ''2024-01-15''),
                 (YStr ''decision_owner'', YStr ''bob'')]) \<and>
   map_of TDR_TYPES (upper ''tdm'') =
     Some \<lparr>type_name = ''Technical Decision Memo'',
           required_sections = [''Context'', ''Decision'', ''Rationale''],
           optional_sections = [''Implementation'', ''Consequences'', ''Next Steps'',
             ''Follow-up Required'', ''Related Work'']\<rparr> \<and>
   lower ''Accepted'' \<in> set VALID_STATUSES \<and>
   fromisoformat sample_ext (py_str sample_ext (YTimestamp ''2024-01-15'')) \<and>
   strip ''bob'' \<noteq> [] \<and>
   list_all (\<lambda>name. case map_of (fst (parse_sections sample_body sample_validator)) name of
                        None \<Rightarrow> False | Some c \<Rightarrow> strip c \<noteq> [])
     [''Context'', ''Decision'', ''Rationale''] \<and>
   (\<exists>r. validate_file sample_ext sample_validator ''a.md''
          (Inr (''---\<newline>'' @ sample_header @ ''\<newline>---\<newline>'' @ sample_body)) = Inr r \<and>
        r_valid r \<and> r_errors r = [])"
proof -
  let ?d = "[(YStr ''type'', YStr ''tdm''), (YStr ''title'', YStr ''T''),
             (YStr ''status'', YStr ''Accepted''),
             (YStr ''date'', YTimestamp ''2024-01-15''),
             (YStr ''decision_owner'', YStr ''bob'')]"
  let ?cfg = "\<lparr>type_name = ''Technical Decision Memo'',
           required_sections = [''Context'', ''Decision'', ''Rationale''],
           optional_sections = [''Implementation'', ''Consequences'', ''Next Steps'',
             ''Follow-up Required'', ''Related Work'']\<rparr>"
  have h1: "''---'' \<notin> set (tl (split_nl sample_header))" by code_simp
  have h2: "safe_load sample_ext sample_header = Inr (YDict ?d)"
    by (simp add: sample_ext_def sample_frontmatter_def)
  have h3: "map_of ?d (YStr ''type'') = Some (YStr ''tdm'')" by simp
  have h4: "map_of TDR_TYPES (upper ''tdm'') = Some ?cfg" by code_simp
  have h5: "map_of ?d (YStr ''title'') \<noteq> None" by simp
  have h6: "map_of ?d (YStr ''status'') = Some (YStr ''Accepted'')" by simp
  have h7: "lower ''Accepted'' \<in> set VALID_STATUSES" by code_simp
  have h8: "map_of ?d (YStr ''date'') = Some (YTimestamp ''2024-01-15'')" by simp
  have h9: "fromisoformat sample_ext (py_str sample_ext (YTimestamp ''2024-01-15''))"
    by (simp add: sample_ext_def)
  have h10: "map_of ?d (YStr ''decision_owner'') = Some (YStr ''bob'')" by simp
  have h11: "strip ''bob'' \<noteq> []" by code_simp
  have h12: "\<forall>sign. map_of ?d (YStr ''supersedes'') \<noteq> Some (YFloat (Infinity sign))" by simp
  have h13: "case map_of ?d (YStr ''ai-context'') of
           None \<Rightarrow> True | Some (YDict a) \<Rightarrow> True | Some other \<Rightarrow> False" by simp
  have h14: "list_all (\<lambda>name. case map_of (fst (parse_sections sample_body sample_validator)) name of
                        None \<Rightarrow> False | Some c \<Rightarrow> strip c \<noteq> [])
     [''Context'', ''Decision'', ''Rationale'']" by code_simp
  then have h14': "list_all (\<lambda>name. case map_of (fst (parse_sections sample_body sample_validator)) name of
                        None \<Rightarrow> False | Some c \<Rightarrow> strip c \<noteq> [])
     (required_sections ?cfg)" by simp
  from validate_file_well_formed [OF h1 h2 h3 h4 h5 h6 h7 h8 h9 h10 h11 h12 h13 h14', of "''a.md''"]
  have c: "\<exists>r. validate_file sample_ext sample_validator ''a.md''
          (Inr (''---\<newline>'' @ sample_header @ ''\<newline>---\<newline>'' @ sample_body)) = Inr r \<and>
        r_valid r \<and> r_errors r = []" .
  from h1 h2 h4 h7 h9 h11 h14 c show ?thesis by (intro conjI)
qed

end
